theory Spec2Isabelle
  imports Complex_Main
begin

section \<open>Data model (models/User.js, models/Task.js)\<close>

text \<open>
  Object ids are the hexadecimal strings that \<^verbatim>\<open>toString()\<close> yields; the code compares
  ids only through these strings. A \<^verbatim>\<open>Date\<close> is its number of milliseconds.
\<close>

type_synonym oid = string
type_synonym date = nat

datatype role = Admin | Vendor | Customer

datatype status = Todo | Inprogress | Done

datatype priority = Low | Medium | High

text \<open>\<^verbatim>\<open>userSchema\<close>. The password is absent after \<^verbatim>\<open>select("-password")\<close>.\<close>

record user =
  user_id :: oid
  name :: string
  email :: string
  password :: "string option"
  role :: role
  isActive :: bool
  lastLogin :: "date option"

text \<open>\<^verbatim>\<open>subtaskSchema\<close> and \<^verbatim>\<open>commentSchema\<close>.\<close>

record subtask =
  subtask_id :: oid
  subtask_text :: string
  completed :: bool

record comment =
  comment_text :: string
  author :: string
  authorId :: oid
  authorRole :: role
  comment_createdAt :: date

text \<open>
  \<^verbatim>\<open>taskSchema\<close>. The schema's \<^verbatim>\<open>attachments\<close> and \<^verbatim>\<open>createdAt\<close> are read by none of
  the functions below and are left out.
\<close>

record task =
  task_id :: oid
  title :: string
  description :: "string option"
  priority :: priority
  status :: status
  assignee :: string
  assigneeId :: oid
  createdBy :: oid
  dueDate :: date
  tags :: "string list"
  subtasks :: "subtask list"
  timeSpent :: int
  comments :: "comment list"
  isArchived :: bool
  completedAt :: "date option"
  updatedAt :: date

section \<open>Task state machine (models/Task.js)\<close>

text \<open>
  \<^verbatim>\<open>taskSchema.pre("save", ...)\<close>. The hook reads the clock (\<open>now\<close>) and
  \<^verbatim>\<open>this.isModified("status")\<close>, which the document tracks and the hook takes here as
  the flag \<open>isModified_status\<close>. The three statements run in the order of the source.
\<close>

definition taskSchema_pre_save :: "date \<Rightarrow> bool \<Rightarrow> task \<Rightarrow> task" where
  "taskSchema_pre_save now isModified_status this =
     (let this1 = this\<lparr>updatedAt := now\<rparr>;
          this2 = (if isModified_status \<and> status this1 = Done \<and> completedAt this1 = None
                   then this1\<lparr>completedAt := Some now\<rparr> else this1);
          this3 = (if isModified_status \<and> status this2 \<noteq> Done \<and> completedAt this2 \<noteq> None
                   then this2\<lparr>completedAt := None\<rparr> else this2)
      in this3)"

subsection \<open>JavaScript numbers\<close>

text \<open>
  \<^verbatim>\<open>completed / total\<close> and \<^verbatim>\<open>* 100\<close> are operations of IEEE 754 binary64: each
  returns the representable number nearest to the exact result, ties to the even
  significand. Values are rationals; \<open>to_double\<close> is that rounding for numbers in the
  normal range (the operands here are array lengths, below \<open>2 ^ 32\<close>).
\<close>

function bitlen :: "int \<Rightarrow> int" where
  "bitlen n = (if n \<le> 0 then 0 else 1 + bitlen (n div 2))"
  by pat_completeness auto
termination
  by (relation "measure nat") auto

declare bitlen.simps [simp del]

definition pow2 :: "int \<Rightarrow> rat" where
  "pow2 e = (if 0 \<le> e then 2 ^ nat e else 1 / 2 ^ nat (- e))"

definition round_half_even :: "rat \<Rightarrow> int" where
  "round_half_even x =
     (let f = \<lfloor>x\<rfloor>; r = x - of_int f
      in if r < 1 / 2 then f
         else if 1 / 2 < r then f + 1
         else if even f then f else f + 1)"

text \<open>For \<open>0 < x\<close>, \<open>binade x\<close> is the exponent \<open>e\<close> with \<open>2 ^ e \<le> x < 2 ^ (e + 1)\<close>.\<close>

definition binade :: "rat \<Rightarrow> int" where
  "binade x =
     (let (p, q) = quotient_of x;
          e0 = bitlen p - bitlen q
      in if pow2 e0 \<le> x then e0 else e0 - 1)"

definition to_double :: "rat \<Rightarrow> rat" where
  "to_double x =
     (if x = 0 then 0
      else let a = \<bar>x\<bar>; e = binade a; m = round_half_even (a * pow2 (52 - e))
           in sgn x * of_int m * pow2 (e - 52))"

definition js_div :: "rat \<Rightarrow> rat \<Rightarrow> rat" where
  "js_div a b = to_double (a / b)"

definition js_mul :: "rat \<Rightarrow> rat \<Rightarrow> rat" where
  "js_mul a b = to_double (a * b)"

text \<open>\<^verbatim>\<open>Math.round\<close>: the nearest integer, a tie going up.\<close>

definition Math_round :: "rat \<Rightarrow> int" where
  "Math_round x = \<lfloor>x + 1 / 2\<rfloor>"

subsection \<open>Subtask progress\<close>

record subtask_progress =
  progress_completed :: nat
  progress_total :: nat
  progress_percentage :: int

text \<open>\<^verbatim>\<open>taskSchema.virtual("subtaskProgress").get(...)\<close>.\<close>

definition subtaskProgress :: "task \<Rightarrow> subtask_progress" where
  "subtaskProgress this =
     (if length (subtasks this) = 0
      then \<lparr>progress_completed = 0, progress_total = 0, progress_percentage = 0\<rparr>
      else let completed = length (filter (\<lambda>subtask. completed subtask) (subtasks this));
               total = length (subtasks this);
               percentage = Math_round (js_mul (js_div (of_nat completed) (of_nat total)) 100)
           in \<lparr>progress_completed = completed, progress_total = total,
               progress_percentage = percentage\<rparr>)"

text \<open>
  The percentage in the words of the specification, \<^verbatim>\<open>round(completed/total*100)\<close>:
  the quotient and the product in exact arithmetic, rounded to the nearest integer, a tie
  going up. It is compared with the percentage of the getter below.
\<close>

definition spec_percentage :: "nat \<Rightarrow> nat \<Rightarrow> int" where
  "spec_percentage c n = \<lfloor>(of_nat c / of_nat n * 100 + 1 / 2 :: rat)\<rfloor>"

text \<open>
  The getter as a method on the document: it returns the projection together with the
  document it leaves behind. The source assigns to no field of \<^verbatim>\<open>this\<close>.
\<close>

definition get_subtaskProgress :: "task \<Rightarrow> subtask_progress \<times> task" where
  "get_subtaskProgress this = (subtaskProgress this, this)"

section \<open>Responses and stores\<close>

text \<open>
  A handler either answers with an error status and message
  (\<^verbatim>\<open>res.status(c).json({success: false, message})\<close>) or lets an exception escape to the
  error middleware (\<open>Thrown\<close>); a successful answer is the \<open>Inr\<close> of a result type.
\<close>

datatype failure = Status nat string | Thrown string

fun role_string :: "role \<Rightarrow> string" where
  "role_string Admin = ''admin''"
| "role_string Vendor = ''vendor''"
| "role_string Customer = ''customer''"

fun status_string :: "status \<Rightarrow> string" where
  "status_string Todo = ''todo''"
| "status_string Inprogress = ''inprogress''"
| "status_string Done = ''done''"

fun priority_string :: "priority \<Rightarrow> string" where
  "priority_string Low = ''low''"
| "priority_string Medium = ''medium''"
| "priority_string High = ''high''"

text \<open>
  The collections are lists of documents. \<^verbatim>\<open>findById(undefined)\<close> is Mongoose's
  \<^verbatim>\<open>findOne({_id: null})\<close> and finds nothing.
\<close>

definition User_findById :: "user list \<Rightarrow> oid option \<Rightarrow> user option" where
  "User_findById users i =
     (case i of None \<Rightarrow> None | Some j \<Rightarrow> find (\<lambda>u. user_id u = j) users)"

definition User_findByEmail :: "user list \<Rightarrow> string \<Rightarrow> user option" where
  "User_findByEmail users e = find (\<lambda>u. email u = e) users"

definition select_no_password :: "user \<Rightarrow> user" where
  "select_no_password u = u\<lparr>password := None\<rparr>"

definition User_save :: "user \<Rightarrow> user list \<Rightarrow> user list" where
  "User_save u users = map (\<lambda>x. if user_id x = user_id u then u else x) users"

definition Task_findById :: "task list \<Rightarrow> oid \<Rightarrow> task option" where
  "Task_findById tasks i = find (\<lambda>t. task_id t = i) tasks"

section \<open>Credentials (middleware/auth.js, controllers/authController.js, socket/socketHandlers.js)\<close>

text \<open>
  \<^verbatim>\<open>jsonwebtoken\<close>, symbolically: a token is the payload, the key that signed it and
  its expiry. \<^verbatim>\<open>jwt.verify\<close> throws (\<open>None\<close>) on another key or after the expiry.
\<close>

type_synonym claims = "(string \<times> oid) list"

datatype jwt = Jwt (jwt_key: string) (jwt_claims: claims) (jwt_exp: "date option")

definition jwt_sign :: "claims \<Rightarrow> string \<Rightarrow> nat option \<Rightarrow> date \<Rightarrow> jwt" where
  "jwt_sign payload key expiresIn now =
     Jwt key payload (case expiresIn of None \<Rightarrow> None | Some d \<Rightarrow> Some (now + d))"

definition jwt_verify :: "jwt \<Rightarrow> string \<Rightarrow> date \<Rightarrow> claims option" where
  "jwt_verify token key now =
     (if jwt_key token \<noteq> key then None
      else case jwt_exp token of
             None \<Rightarrow> Some (jwt_claims token)
           | Some e \<Rightarrow> if e \<le> now then None else Some (jwt_claims token))"

text \<open>
  The \<^verbatim>\<open>Authorization\<close> header: \<open>Bearer t\<close> is a header that starts with
  \<^verbatim>\<open>"Bearer"\<close>, \<open>t\<close> being \<^verbatim>\<open>split(" ")[1]\<close> (\<open>None\<close> when there is no second word).
  \<open>req_user\<close> is \<^verbatim>\<open>req.user\<close>, undefined until a middleware sets it.
\<close>

datatype auth_header = Bearer "jwt option" | Other_scheme

record http_request =
  authorization :: "auth_header option"
  req_user :: "user option"

text \<open>\<^verbatim>\<open>generateToken\<close>; \<open>JWT_EXPIRE\<close> is \<^verbatim>\<open>process.env.JWT_EXPIRE || "7d"\<close>.\<close>

definition generateToken :: "string \<Rightarrow> nat \<Rightarrow> date \<Rightarrow> oid \<Rightarrow> jwt" where
  "generateToken JWT_SECRET JWT_EXPIRE now i =
     jwt_sign [(''id'', i)] JWT_SECRET (Some JWT_EXPIRE) now"

text \<open>\<^verbatim>\<open>protect\<close>: \<open>Inr\<close> is the request handed to \<^verbatim>\<open>next()\<close>.\<close>

definition protect :: "string \<Rightarrow> date \<Rightarrow> user list \<Rightarrow> http_request \<Rightarrow> failure + http_request" where
  "protect JWT_SECRET now users req =
     (let token = (case authorization req of Some (Bearer t) \<Rightarrow> t | _ \<Rightarrow> None)
      in case token of
           None \<Rightarrow> Inl (Status 401 ''Not authorized to access this route'')
         | Some tok \<Rightarrow>
             (case jwt_verify tok JWT_SECRET now of
                None \<Rightarrow> Inl (Status 401 ''Not authorized to access this route'')
              | Some decoded \<Rightarrow>
                  (case User_findById users (map_of decoded ''userId'') of
                     None \<Rightarrow> Inl (Status 401 ''No user found with this token'')
                   | Some found \<Rightarrow>
                       let user = select_no_password found
                       in if \<not> isActive user
                          then Inl (Status 401 ''User account is deactivated'')
                          else Inr (req\<lparr>req_user := Some user\<rparr>))))"

text \<open>
  \<^verbatim>\<open>authorize(...roles)\<close>, applied to \<^verbatim>\<open>req.user\<close>: reading the role of an undefined
  user throws; \<open>Inr\<close> is \<^verbatim>\<open>next()\<close>.
\<close>

definition authorize :: "role list \<Rightarrow> user option \<Rightarrow> failure + user" where
  "authorize roles req_user' =
     (case req_user' of
        None \<Rightarrow> Inl (Thrown ''TypeError: Cannot read properties of undefined'')
      | Some u \<Rightarrow>
          if role u \<notin> set roles
          then Inl (Status 403 (''User role '' @ role_string (role u)
                                @ '' is not authorized to access this route''))
          else Inr u)"

text \<open>
  \<^verbatim>\<open>userSchema.methods.matchPassword\<close>; \<open>bcrypt_compare\<close> is \<^verbatim>\<open>bcrypt.compare\<close>, which
  rejects a missing hash.
\<close>

definition matchPassword :: "(string \<Rightarrow> string \<Rightarrow> bool) \<Rightarrow> user \<Rightarrow> string \<Rightarrow> failure + bool" where
  "matchPassword bcrypt_compare this enteredPassword =
     (case password this of
        None \<Rightarrow> Inl (Thrown ''Error: Illegal arguments'')
      | Some h \<Rightarrow> Inr (bcrypt_compare enteredPassword h))"

text \<open>\<^verbatim>\<open>userSchema.virtual("profile")\<close>: the user without the password.\<close>

definition profile :: "user \<Rightarrow> user" where
  "profile this = this\<lparr>password := None\<rparr>"

text \<open>
  \<^verbatim>\<open>login\<close>. \<open>errors\<close> is \<^verbatim>\<open>validationResult(req)\<close>; the result comes with the users
  collection after \<^verbatim>\<open>user.save()\<close>.
\<close>

definition login ::
  "(string \<Rightarrow> string \<Rightarrow> bool) \<Rightarrow> string \<Rightarrow> date \<Rightarrow> string list \<Rightarrow> user list \<Rightarrow> string \<Rightarrow> string
     \<Rightarrow> (failure + jwt \<times> user) \<times> user list" where
  "login bcrypt_compare JWT_SECRET now errors users email' password' =
     (if errors \<noteq> [] then (Inl (Status 400 ''Validation failed''), users)
      else case User_findByEmail users email' of
             None \<Rightarrow> (Inl (Status 401 ''Invalid Email or Password''), users)
           | Some user \<Rightarrow>
               if \<not> isActive user
               then (Inl (Status 401 ''Account is deactivated. Please contact administrator.''),
                     users)
               else (case matchPassword bcrypt_compare user password' of
                       Inl e \<Rightarrow> (Inl e, users)
                     | Inr isMatch \<Rightarrow>
                         if \<not> isMatch then (Inl (Status 401 ''Invalid Email or Password''), users)
                         else let user' = user\<lparr>lastLogin := Some now\<rparr>;
                                  users' = User_save user' users;
                                  token = jwt_sign [(''userId'', user_id user')] JWT_SECRET None now
                              in (Inr (token, profile user'), users')))"

text \<open>
  \<^verbatim>\<open>authenticateSocket\<close>: \<open>Inl\<close> is the message of the \<^verbatim>\<open>Error\<close> given to \<^verbatim>\<open>next\<close>, which
  refuses the connection; \<open>Inr\<close> is \<^verbatim>\<open>socket.user\<close>.
\<close>

definition authenticateSocket :: "string \<Rightarrow> date \<Rightarrow> user list \<Rightarrow> jwt option \<Rightarrow> string + user" where
  "authenticateSocket JWT_SECRET now users token =
     (case token of
        None \<Rightarrow> Inl ''Authentication error: No token provided''
      | Some tok \<Rightarrow>
          (case jwt_verify tok JWT_SECRET now of
             None \<Rightarrow> Inl ''Authentication error: Invalid token''
           | Some decoded \<Rightarrow>
               (case User_findById users (map_of decoded ''id'') of
                  None \<Rightarrow> Inl ''Authentication error: Invalid user''
                | Some found \<Rightarrow>
                    let user = select_no_password found
                    in if \<not> isActive user
                       then Inl ''Authentication error: Invalid user''
                       else Inr user)))"

section \<open>Realtime channels (socket/socketHandlers.js)\<close>

text \<open>
  A connected socket with the rooms it has joined. A delivery is one event arriving at
  one socket.
\<close>

record socket =
  socket_id :: nat
  socket_user :: user
  rooms :: "string list"

datatype event_data =
    Task_data "task option"
  | TaskId_data oid
  | Tasks_data "task list"
  | Comment_data oid comment
  | Client_data oid string

type_synonym delivery = "nat \<times> string \<times> event_data"

text \<open>\<^verbatim>\<open>io.emit(event, data)\<close>: every connected socket.\<close>

definition io_emit :: "socket list \<Rightarrow> string \<Rightarrow> event_data \<Rightarrow> delivery list" where
  "io_emit sockets event data = map (\<lambda>s. (socket_id s, event, data)) sockets"

text \<open>\<^verbatim>\<open>socket.to(room).emit(event, data)\<close>: the sockets in the room, the sender apart.\<close>

definition socket_to_emit ::
  "socket list \<Rightarrow> socket \<Rightarrow> string \<Rightarrow> string \<Rightarrow> event_data \<Rightarrow> delivery list" where
  "socket_to_emit sockets sender room event data =
     map (\<lambda>s. (socket_id s, event, data))
       (filter (\<lambda>s. room \<in> set (rooms s) \<and> socket_id s \<noteq> socket_id sender) sockets)"

text \<open>The \<^verbatim>\<open>connection\<close> handler's two joins, and \<^verbatim>\<open>joinTask\<close> / \<^verbatim>\<open>leaveTask\<close>.\<close>

definition on_connection :: "nat \<Rightarrow> user \<Rightarrow> socket" where
  "on_connection sid u =
     \<lparr>socket_id = sid, socket_user = u,
      rooms = [''user_'' @ user_id u, ''role_'' @ role_string (role u)]\<rparr>"

definition joinTask :: "oid \<Rightarrow> socket \<Rightarrow> socket" where
  "joinTask taskId s = s\<lparr>rooms := List.insert (''task_'' @ taskId) (rooms s)\<rparr>"

definition leaveTask :: "oid \<Rightarrow> socket \<Rightarrow> socket" where
  "leaveTask taskId s = s\<lparr>rooms := removeAll (''task_'' @ taskId) (rooms s)\<rparr>"

text \<open>The \<^verbatim>\<open>taskUpdate\<close> handler; \<open>taskId\<close> is \<^verbatim>\<open>data.taskId\<close>.\<close>

definition on_taskUpdate :: "socket list \<Rightarrow> socket \<Rightarrow> oid \<Rightarrow> string \<Rightarrow> delivery list" where
  "on_taskUpdate sockets sender taskId content =
     socket_to_emit sockets sender (''task_'' @ taskId) ''taskUpdated'' (Client_data taskId content)
     @ socket_to_emit sockets sender ''role_admin'' ''taskUpdated'' (Client_data taskId content)
     @ socket_to_emit sockets sender ''role_vendor'' ''taskUpdated'' (Client_data taskId content)"

section \<open>Visibility policy (middleware/auth.js, controllers/taskController.js)\<close>

text \<open>\<^verbatim>\<open>checkTaskAccess\<close>, with \<open>taskId\<close> the route's \<^verbatim>\<open>req.params.id\<close>.\<close>

definition checkTaskAccess :: "task list \<Rightarrow> user \<Rightarrow> oid \<Rightarrow> failure + unit" where
  "checkTaskAccess tasks user taskId =
     (if role user = Admin then Inr ()
      else case Task_findById tasks taskId of
             None \<Rightarrow> Inl (Status 404 ''Task not found'')
           | Some task \<Rightarrow>
               if role user = Vendor
                  \<and> (createdBy task = user_id user \<or> assigneeId task = user_id user)
               then Inr ()
               else if role user = Customer \<and> assigneeId task = user_id user
               then Inr ()
               else Inl (Status 403 ''Not authorized to access this task''))"

text \<open>
  The filter objects handed to \<^verbatim>\<open>Task.find\<close>, \<^verbatim>\<open>Task.countDocuments\<close> and
  \<^verbatim>\<open>Task.updateMany\<close>: one optional entry per key the controllers set. \<open>rx\<close> is
  MongoDB's case-insensitive \<^verbatim>\<open>$regex\<close> match of a pattern on a string.
\<close>

datatype clause =
    AssigneeId_eq oid
  | CreatedBy_eq oid
  | Title_regex string
  | Description_regex string

record task_query =
  q_id_in :: "oid list option"
  q_isArchived :: "bool option"
  q_assigneeId :: "oid option"
  q_or :: "clause list option"
  q_status :: "string option"
  q_priority :: "string option"
  q_tags_in :: "string list option"

fun clause_holds :: "(string \<Rightarrow> string \<Rightarrow> bool) \<Rightarrow> clause \<Rightarrow> task \<Rightarrow> bool" where
  "clause_holds rx (AssigneeId_eq i) t = (assigneeId t = i)"
| "clause_holds rx (CreatedBy_eq i) t = (createdBy t = i)"
| "clause_holds rx (Title_regex s) t = rx s (title t)"
| "clause_holds rx (Description_regex s) t =
     (case description t of None \<Rightarrow> False | Some d \<Rightarrow> rx s d)"

definition matches :: "(string \<Rightarrow> string \<Rightarrow> bool) \<Rightarrow> task_query \<Rightarrow> task \<Rightarrow> bool" where
  "matches rx q t =
     ((case q_id_in q of None \<Rightarrow> True | Some ids \<Rightarrow> task_id t \<in> set ids)
      \<and> (case q_isArchived q of None \<Rightarrow> True | Some b \<Rightarrow> isArchived t = b)
      \<and> (case q_assigneeId q of None \<Rightarrow> True | Some i \<Rightarrow> assigneeId t = i)
      \<and> (case q_or q of None \<Rightarrow> True | Some cs \<Rightarrow> list_ex (\<lambda>c. clause_holds rx c t) cs)
      \<and> (case q_status q of None \<Rightarrow> True | Some s \<Rightarrow> status_string (status t) = s)
      \<and> (case q_priority q of None \<Rightarrow> True | Some s \<Rightarrow> priority_string (priority t) = s)
      \<and> (case q_tags_in q of None \<Rightarrow> True
          | Some vs \<Rightarrow> list_ex (\<lambda>v. v \<in> set (tags t)) vs))"

text \<open>JavaScript truthiness of an optional string, and \<^verbatim>\<open>s.split(",")\<close>.\<close>

definition truthy :: "string option \<Rightarrow> bool" where
  "truthy v = (case v of None \<Rightarrow> False | Some s \<Rightarrow> s \<noteq> [])"

fun split_on :: "char \<Rightarrow> string \<Rightarrow> string list" where
  "split_on c [] = [[]]"
| "split_on c (x # xs) =
     (if x = c then [] # split_on c xs
      else case split_on c xs of [] \<Rightarrow> [[x]] | w # ws \<Rightarrow> (x # w) # ws)"

text \<open>
  The query string of \<^verbatim>\<open>GET /api/tasks\<close> (\<^verbatim>\<open>req.query\<close>). \<open>qp_page\<close> and \<open>qp_limit\<close> hold
  the integer that \<^verbatim>\<open>parseInt\<close> reads from an integer literal.
\<close>

record tasks_params =
  qp_status :: "string option"
  qp_priority :: "string option"
  qp_assigneeId :: "string option"
  qp_tags :: "string option"
  qp_search :: "string option"
  qp_page :: "int option"
  qp_limit :: "int option"
  qp_sortBy :: "string option"
  qp_sortOrder :: "string option"

text \<open>\<^verbatim>\<open>getTasks\<close>: the construction of \<^verbatim>\<open>query\<close>, statement by statement.\<close>

definition getTasks_query :: "user \<Rightarrow> tasks_params \<Rightarrow> task_query" where
  "getTasks_query user ps =
     (let query0 = \<lparr>q_id_in = None, q_isArchived = Some False, q_assigneeId = None, q_or = None,
                     q_status = None, q_priority = None, q_tags_in = None\<rparr>;
          query1 = (if role user = Customer then query0\<lparr>q_assigneeId := Some (user_id user)\<rparr>
                    else if role user = Vendor
                    then query0\<lparr>q_or := Some [AssigneeId_eq (user_id user),
                                                CreatedBy_eq (user_id user)]\<rparr>
                    else query0);
          query2 = (if truthy (qp_status ps) then query1\<lparr>q_status := qp_status ps\<rparr> else query1);
          query3 = (if truthy (qp_priority ps) then query2\<lparr>q_priority := qp_priority ps\<rparr>
                    else query2);
          query4 = (if truthy (qp_assigneeId ps) then query3\<lparr>q_assigneeId := qp_assigneeId ps\<rparr>
                    else query3);
          query5 = (case qp_tags ps of
                      None \<Rightarrow> query4
                    | Some ts \<Rightarrow> if ts \<noteq> [] then query4\<lparr>q_tags_in := Some (split_on CHR '','' ts)\<rparr>
                                 else query4);
          query6 = (case qp_search ps of
                      None \<Rightarrow> query5
                    | Some s \<Rightarrow> if s \<noteq> [] then query5\<lparr>q_or := Some [Title_regex s,
                                                                         Description_regex s]\<rparr>
                                else query5)
      in query6)"

record tasks_page =
  tasks_count :: nat
  tasks_total :: nat
  tasks_data :: "task list"

text \<open>
  \<^verbatim>\<open>getTasks\<close>: the answer holds one page of the tasks that match \<^verbatim>\<open>query\<close>
  (\<^verbatim>\<open>data\<close>), the length of the page (\<^verbatim>\<open>count\<close>) and the number of all matching tasks
  (\<^verbatim>\<open>total\<close>). \<open>srt\<close> is MongoDB's sort of the matching tasks by a field name and a
  direction (\<open>True\<close> for descending). \<open>drop\<close> and \<open>take\<close> are \<^verbatim>\<open>skip\<close> and \<^verbatim>\<open>limit\<close> on
  the range the validation admits (\<open>1 \<le> page\<close>, \<open>1 \<le> limit\<close>). The \<^verbatim>\<open>pagination\<close> entry
  of the answer only repeats the page and the limit and is left out.
\<close>

definition getTasks ::
  "(string \<Rightarrow> string \<Rightarrow> bool) \<Rightarrow> (string \<Rightarrow> bool \<Rightarrow> task list \<Rightarrow> task list) \<Rightarrow> string list
     \<Rightarrow> task list \<Rightarrow> user \<Rightarrow> tasks_params \<Rightarrow> failure + tasks_page" where
  "getTasks rx srt errors tasks user ps =
     (if errors \<noteq> [] then Inl (Status 400 ''Validation failed'')
      else let page = (case qp_page ps of None \<Rightarrow> 1 | Some n \<Rightarrow> n);
               limit = (case qp_limit ps of None \<Rightarrow> 50 | Some n \<Rightarrow> n);
               sortBy = (case qp_sortBy ps of None \<Rightarrow> ''createdAt'' | Some f \<Rightarrow> f);
               sortOrder = (case qp_sortOrder ps of None \<Rightarrow> ''desc'' | Some d \<Rightarrow> d);
               query = getTasks_query user ps;
               skip = (page - 1) * limit;
               found = filter (matches rx query) tasks;
               shown = take (nat limit) (drop (nat skip) (srt sortBy (sortOrder = ''desc'') found))
           in Inr \<lparr>tasks_count = length shown, tasks_total = length found, tasks_data = shown\<rparr>)"

text \<open>
  \<^verbatim>\<open>getTask\<close>. \<^verbatim>\<open>populate\<close> replaces \<^verbatim>\<open>assigneeId\<close> and \<^verbatim>\<open>createdBy\<close> by the users they
  name, or by null when there is none; reading \<^verbatim>\<open>._id\<close> of null throws. The answer's
  \<^verbatim>\<open>data\<close> is the task.
\<close>

definition getTask :: "user list \<Rightarrow> task list \<Rightarrow> user \<Rightarrow> oid \<Rightarrow> failure + task" where
  "getTask users tasks user i =
     (case Task_findById tasks i of
        None \<Rightarrow> Inl (Status 404 ''Task not found'')
      | Some task \<Rightarrow>
          let populated_assigneeId = User_findById users (Some (assigneeId task));
              populated_createdBy = User_findById users (Some (createdBy task));
              null_id = Inl (Thrown ''TypeError: Cannot read properties of null'');
              customer_denied =
                (if role user = Customer
                 then (case populated_assigneeId of
                         None \<Rightarrow> null_id
                       | Some a \<Rightarrow> Inr (user_id a \<noteq> user_id user))
                 else Inr False);
              hasAccess =
                (case populated_assigneeId of
                   None \<Rightarrow> null_id
                 | Some a \<Rightarrow>
                     if user_id a = user_id user then Inr True
                     else (case populated_createdBy of
                             None \<Rightarrow> null_id
                           | Some c \<Rightarrow> Inr (user_id c = user_id user)))
          in case customer_denied of
               Inl e \<Rightarrow> Inl e
             | Inr True \<Rightarrow> Inl (Status 403 ''Not authorized to access this task'')
             | Inr False \<Rightarrow>
                 if role user = Vendor
                 then (case hasAccess of
                         Inl e \<Rightarrow> Inl e
                       | Inr h \<Rightarrow> if \<not> h then Inl (Status 403 ''Not authorized to access this task'')
                                  else Inr task)
                 else Inr task)"

section \<open>Mutation pipeline (controllers/taskController.js, routes/taskRoutes.js)\<close>

text \<open>
  An update document (\<^verbatim>\<open>req.body\<close> of an update, \<^verbatim>\<open>updates\<close> of a bulk update) after
  Mongoose has cast it to the schema: one optional entry per path of the task, \<open>None\<close>
  when the key is absent. \<^verbatim>\<open>completedAt\<close> can be set to null.
\<close>

record task_patch =
  p_title :: "string option"
  p_description :: "string option"
  p_priority :: "priority option"
  p_status :: "status option"
  p_assignee :: "string option"
  p_assigneeId :: "oid option"
  p_createdBy :: "oid option"
  p_dueDate :: "date option"
  p_tags :: "string list option"
  p_subtasks :: "subtask list option"
  p_timeSpent :: "int option"
  p_comments :: "comment list option"
  p_isArchived :: "bool option"
  p_completedAt :: "date option option"

definition apply_patch :: "task_patch \<Rightarrow> task \<Rightarrow> task" where
  "apply_patch p t =
     t\<lparr>title := (case p_title p of None \<Rightarrow> title t | Some v \<Rightarrow> v),
       description := (case p_description p of None \<Rightarrow> description t | Some v \<Rightarrow> Some v),
       priority := (case p_priority p of None \<Rightarrow> priority t | Some v \<Rightarrow> v),
       status := (case p_status p of None \<Rightarrow> status t | Some v \<Rightarrow> v),
       assignee := (case p_assignee p of None \<Rightarrow> assignee t | Some v \<Rightarrow> v),
       assigneeId := (case p_assigneeId p of None \<Rightarrow> assigneeId t | Some v \<Rightarrow> v),
       createdBy := (case p_createdBy p of None \<Rightarrow> createdBy t | Some v \<Rightarrow> v),
       dueDate := (case p_dueDate p of None \<Rightarrow> dueDate t | Some v \<Rightarrow> v),
       tags := (case p_tags p of None \<Rightarrow> tags t | Some v \<Rightarrow> v),
       subtasks := (case p_subtasks p of None \<Rightarrow> subtasks t | Some v \<Rightarrow> v),
       timeSpent := (case p_timeSpent p of None \<Rightarrow> timeSpent t | Some v \<Rightarrow> v),
       comments := (case p_comments p of None \<Rightarrow> comments t | Some v \<Rightarrow> v),
       isArchived := (case p_isArchived p of None \<Rightarrow> isArchived t | Some v \<Rightarrow> v),
       completedAt := (case p_completedAt p of None \<Rightarrow> completedAt t | Some v \<Rightarrow> v)\<rparr>"

text \<open>
  The schema's validators on the paths an update sets (\<^verbatim>\<open>runValidators: true\<close>):
  \<^verbatim>\<open>required\<close> and \<^verbatim>\<open>maxlength\<close> of the title, \<^verbatim>\<open>maxlength\<close> of the description,
  \<^verbatim>\<open>required\<close> of the assignee's name, \<^verbatim>\<open>min: 0\<close> of the time spent.
\<close>

definition update_validators :: "task_patch \<Rightarrow> bool" where
  "update_validators p =
     ((case p_title p of None \<Rightarrow> True | Some s \<Rightarrow> s \<noteq> [] \<and> length s \<le> 100)
      \<and> (case p_description p of None \<Rightarrow> True | Some d \<Rightarrow> length d \<le> 1000)
      \<and> (case p_assignee p of None \<Rightarrow> True | Some a \<Rightarrow> a \<noteq> [])
      \<and> (case p_timeSpent p of None \<Rightarrow> True | Some n \<Rightarrow> 0 \<le> n))"

fun replace_first :: "('a \<Rightarrow> bool) \<Rightarrow> 'a \<Rightarrow> 'a list \<Rightarrow> 'a list" where
  "replace_first P y [] = []"
| "replace_first P y (x # xs) = (if P x then y # xs else x # replace_first P y xs)"

fun remove_first :: "('a \<Rightarrow> bool) \<Rightarrow> 'a list \<Rightarrow> 'a list" where
  "remove_first P [] = []"
| "remove_first P (x # xs) = (if P x then xs else x # remove_first P xs)"

text \<open>
  \<^verbatim>\<open>Task.findByIdAndUpdate(id, update, {new: true, runValidators: true})\<close>: a query
  operation. It writes the update's paths and the \<^verbatim>\<open>updatedAt\<close> timestamp, and answers
  with the new document. It is no \<^verbatim>\<open>save\<close>: Mongoose runs the document middleware
  \<^verbatim>\<open>pre("save")\<close> on \<^verbatim>\<open>save()\<close> and \<^verbatim>\<open>create()\<close> only.
\<close>

definition Task_findByIdAndUpdate ::
  "date \<Rightarrow> task list \<Rightarrow> oid \<Rightarrow> task_patch \<Rightarrow> (failure + task option) \<times> task list" where
  "Task_findByIdAndUpdate now tasks i p =
     (if \<not> update_validators p then (Inl (Thrown ''ValidationError''), tasks)
      else case Task_findById tasks i of
             None \<Rightarrow> (Inr None, tasks)
           | Some t \<Rightarrow>
               let t' = (apply_patch p t)\<lparr>updatedAt := now\<rparr>
               in (Inr (Some t'), replace_first (\<lambda>x. task_id x = i) t' tasks))"

text \<open>
  The block \<^verbatim>\<open>if (req.body.assigneeId) { ... }\<close> of \<^verbatim>\<open>updateTask\<close>, which
  \<^verbatim>\<open>bulkUpdateTasks\<close> repeats on \<^verbatim>\<open>updates\<close>: the new assignee must exist, and their name
  is written into the update.
\<close>

definition verify_assignee :: "user list \<Rightarrow> task_patch \<Rightarrow> failure + task_patch" where
  "verify_assignee users body =
     (if truthy (p_assigneeId body)
      then (case User_findById users (p_assigneeId body) of
              None \<Rightarrow> Inl (Status 400 ''Assignee not found'')
            | Some assignee' \<Rightarrow> Inr (body\<lparr>p_assignee := Some (name assignee')\<rparr>))
      else Inr body)"

text \<open>
  \<^verbatim>\<open>updateTask\<close>. \<open>io\<close> is \<^verbatim>\<open>req.io\<close>: the connected sockets, or \<open>None\<close> when no
  transport is attached. The result is the answer, the tasks collection and the
  deliveries of the emitted event.
\<close>

definition updateTask ::
  "date \<Rightarrow> string list \<Rightarrow> user list \<Rightarrow> task list \<Rightarrow> oid \<Rightarrow> task_patch \<Rightarrow> socket list option
     \<Rightarrow> (failure + task option) \<times> task list \<times> delivery list" where
  "updateTask now errors users tasks i body io =
     (if errors \<noteq> [] then (Inl (Status 400 ''Validation failed''), tasks, [])
      else case Task_findById tasks i of
             None \<Rightarrow> (Inl (Status 404 ''Task not found''), tasks, [])
           | Some _ \<Rightarrow>
               (case verify_assignee users body of
                  Inl e \<Rightarrow> (Inl e, tasks, [])
                | Inr body' \<Rightarrow>
                    (case Task_findByIdAndUpdate now tasks i body' of
                       (Inl e, tasks') \<Rightarrow> (Inl e, tasks', [])
                     | (Inr task, tasks') \<Rightarrow>
                         (Inr task, tasks',
                          case io of None \<Rightarrow> []
                          | Some sockets \<Rightarrow> io_emit sockets ''taskUpdated'' (Task_data task)))))"

text \<open>\<^verbatim>\<open>deleteTask\<close>.\<close>

definition deleteTask ::
  "task list \<Rightarrow> oid \<Rightarrow> socket list option \<Rightarrow> (failure + unit) \<times> task list \<times> delivery list" where
  "deleteTask tasks i io =
     (case Task_findById tasks i of
        None \<Rightarrow> (Inl (Status 404 ''Task not found''), tasks, [])
      | Some _ \<Rightarrow>
          (Inr (), remove_first (\<lambda>x. task_id x = i) tasks,
           case io of None \<Rightarrow> []
           | Some sockets \<Rightarrow> io_emit sockets ''taskDeleted'' (TaskId_data i)))"



text \<open>
  \<^verbatim>\<open>Task.updateMany(query, updates)\<close>: every matching document takes the update and the
  \<^verbatim>\<open>updatedAt\<close> timestamp; \<^verbatim>\<open>modifiedCount\<close> counts the matching documents that the
  update changed.
\<close>

definition Task_updateMany ::
  "date \<Rightarrow> (string \<Rightarrow> string \<Rightarrow> bool) \<Rightarrow> task_query \<Rightarrow> task_patch \<Rightarrow> task list
     \<Rightarrow> task list \<times> nat" where
  "Task_updateMany now rx q p tasks =
     (let upd = (\<lambda>t. (apply_patch p t)\<lparr>updatedAt := now\<rparr>)
      in (map (\<lambda>t. if matches rx q t then upd t else t) tasks,
          length (filter (\<lambda>t. matches rx q t \<and> upd t \<noteq> t) tasks)))"

text \<open>\<^verbatim>\<open>bulkUpdateTasks\<close>; a successful answer is \<^verbatim>\<open>modifiedCount\<close>.\<close>

definition bulkUpdateTasks ::
  "date \<Rightarrow> (string \<Rightarrow> string \<Rightarrow> bool) \<Rightarrow> string list \<Rightarrow> user list \<Rightarrow> task list \<Rightarrow> user
     \<Rightarrow> oid list \<Rightarrow> task_patch \<Rightarrow> socket list option
     \<Rightarrow> (failure + nat) \<times> task list \<times> delivery list" where
  "bulkUpdateTasks now rx errors users tasks user taskIds updates io =
     (if errors \<noteq> [] then (Inl (Status 400 ''Validation failed''), tasks, [])
      else case verify_assignee users updates of
             Inl e \<Rightarrow> (Inl e, tasks, [])
           | Inr updates' \<Rightarrow>
               let query0 = \<lparr>q_id_in = Some taskIds, q_isArchived = None, q_assigneeId = None,
                              q_or = None, q_status = None, q_priority = None, q_tags_in = None\<rparr>;
                   query = (if role user = Vendor
                            then query0\<lparr>q_or := Some [AssigneeId_eq (user_id user),
                                                        CreatedBy_eq (user_id user)]\<rparr>
                            else query0);
                   (tasks', modifiedCount) = Task_updateMany now rx query updates' tasks;
                   updatedTasks = filter (matches rx query0) tasks'
               in (Inr modifiedCount, tasks',
                   case io of None \<Rightarrow> []
                   | Some sockets \<Rightarrow> io_emit sockets ''tasksBulkUpdated'' (Tasks_data updatedTasks)))"

text \<open>
  The validation chains of \<^verbatim>\<open>taskRoutes.js\<close>, as the list of errors that
  \<^verbatim>\<open>validationResult(req)\<close> holds. Checks that the types of the model already
  guarantee (\<^verbatim>\<open>isIn\<close> on a priority or status of an update, \<^verbatim>\<open>isMongoId\<close> on an id of
  the body, \<^verbatim>\<open>isISO8601\<close>, \<^verbatim>\<open>isArray\<close>, \<^verbatim>\<open>isNumeric\<close>) yield no error. Strings are
  taken after the chain's \<^verbatim>\<open>trim()\<close>.
\<close>

definition isMongoId :: "string \<Rightarrow> bool" where
  "isMongoId s = (length s = 24 \<and> list_all (\<lambda>c. c \<in> set ''0123456789abcdefABCDEF'') s)"

definition updateTaskValidation :: "task_patch \<Rightarrow> string list" where
  "updateTaskValidation body =
     (case p_title body of
        None \<Rightarrow> []
      | Some s \<Rightarrow> if 1 \<le> length s \<and> length s \<le> 100 then []
                  else [''Title must be less than 100 characters''])
     @ (case p_description body of
          None \<Rightarrow> []
        | Some d \<Rightarrow> if length d \<le> 1000 then []
                    else [''Description must be less than 1000 characters''])"


definition bulkUpdateValidation :: "oid list \<Rightarrow> string list" where
  "bulkUpdateValidation taskIds =
     (if 1 \<le> length taskIds then [] else [''Task IDs array is required''])"

definition getTasksValidation :: "tasks_params \<Rightarrow> string list" where
  "getTasksValidation ps =
     (case qp_status ps of
        None \<Rightarrow> []
      | Some v \<Rightarrow> if v \<in> set [''todo'', ''inprogress'', ''done''] then []
                  else [''Status must be todo, inprogress, or done''])
     @ (case qp_priority ps of
          None \<Rightarrow> []
        | Some v \<Rightarrow> if v \<in> set [''low'', ''medium'', ''high''] then []
                    else [''Priority must be low, medium, or high''])
     @ (case qp_assigneeId ps of
          None \<Rightarrow> []
        | Some v \<Rightarrow> if isMongoId v then [] else [''Assignee ID must be valid''])
     @ (case qp_page ps of
          None \<Rightarrow> []
        | Some n \<Rightarrow> if 1 \<le> n then [] else [''Page must be a positive integer''])
     @ (case qp_limit ps of
          None \<Rightarrow> []
        | Some n \<Rightarrow> if 1 \<le> n \<and> n \<le> 100 then [] else [''Limit must be between 1 and 100''])"

text \<open>
  The routes of \<^verbatim>\<open>taskRoutes.js\<close> behind \<^verbatim>\<open>router.use(protect)\<close>, which has set
  \<^verbatim>\<open>req.user\<close> to \<open>user\<close>:
  \<^verbatim>\<open>router.get("/", getTasksValidation, getTasks)\<close>,
  \<^verbatim>\<open>router.get("/:id", getTask)\<close>,
  \<^verbatim>\<open>router.put("/:id", checkTaskAccess, updateTaskValidation, updateTask)\<close>,
  \<^verbatim>\<open>router.delete("/:id", authorize("admin"), deleteTask)\<close>,
  \<^verbatim>\<open>router.post("/:id/comments", checkTaskAccess, commentValidation, addComment)\<close> and
  \<^verbatim>\<open>router.put("/bulk/update", authorize("admin", "vendor"), bulkUpdateValidation, bulkUpdateTasks)\<close>.
\<close>

definition GET_tasks ::
  "(string \<Rightarrow> string \<Rightarrow> bool) \<Rightarrow> (string \<Rightarrow> bool \<Rightarrow> task list \<Rightarrow> task list) \<Rightarrow> task list
     \<Rightarrow> user \<Rightarrow> tasks_params \<Rightarrow> failure + tasks_page" where
  "GET_tasks rx srt tasks user ps = getTasks rx srt (getTasksValidation ps) tasks user ps"

definition GET_task :: "user list \<Rightarrow> task list \<Rightarrow> user \<Rightarrow> oid \<Rightarrow> failure + task" where
  "GET_task users tasks user i = getTask users tasks user i"

definition PUT_task ::
  "date \<Rightarrow> user list \<Rightarrow> task list \<Rightarrow> user \<Rightarrow> oid \<Rightarrow> task_patch \<Rightarrow> socket list option
     \<Rightarrow> (failure + task option) \<times> task list \<times> delivery list" where
  "PUT_task now users tasks user i body io =
     (case checkTaskAccess tasks user i of
        Inl e \<Rightarrow> (Inl e, tasks, [])
      | Inr _ \<Rightarrow> updateTask now (updateTaskValidation body) users tasks i body io)"


definition DELETE_task ::
  "task list \<Rightarrow> user \<Rightarrow> oid \<Rightarrow> socket list option
     \<Rightarrow> (failure + unit) \<times> task list \<times> delivery list" where
  "DELETE_task tasks user i io =
     (case authorize [Admin] (Some user) of
        Inl e \<Rightarrow> (Inl e, tasks, [])
      | Inr _ \<Rightarrow> deleteTask tasks i io)"

definition PUT_tasks_bulk_update ::
  "date \<Rightarrow> (string \<Rightarrow> string \<Rightarrow> bool) \<Rightarrow> user list \<Rightarrow> task list \<Rightarrow> user
     \<Rightarrow> oid list \<Rightarrow> task_patch \<Rightarrow> socket list option
     \<Rightarrow> (failure + nat) \<times> task list \<times> delivery list" where
  "PUT_tasks_bulk_update now rx users tasks user taskIds updates io =
     (case authorize [Admin, Vendor] (Some user) of
        Inl e \<Rightarrow> (Inl e, tasks, [])
      | Inr user' \<Rightarrow>
          bulkUpdateTasks now rx (bulkUpdateValidation taskIds) users tasks user' taskIds updates io)"

section \<open>User routes (controllers/userController.js, routes/userRoutes.js)\<close>

text \<open>
  The query string of \<^verbatim>\<open>GET /api/users\<close>. \<open>up_page\<close> and \<open>up_limit\<close> hold the integer
  that \<^verbatim>\<open>parseInt\<close> reads from an integer literal.
\<close>

record users_params =
  up_role :: "string option"
  up_isActive :: "string option"
  up_search :: "string option"
  up_page :: "int option"
  up_limit :: "int option"
  up_sortBy :: "string option"
  up_sortOrder :: "string option"

text \<open>\<^verbatim>\<open>getUsersValidation\<close>.\<close>

definition getUsersValidation :: "users_params \<Rightarrow> string list" where
  "getUsersValidation ps =
     (case up_role ps of
        None \<Rightarrow> []
      | Some v \<Rightarrow> if v \<in> set [''admin'', ''vendor'', ''customer''] then []
                  else [''Role must be admin, vendor, or customer''])
     @ (case up_isActive ps of
          None \<Rightarrow> []
        | Some v \<Rightarrow> if v \<in> set [''true'', ''false'', ''1'', ''0''] then []
                    else [''isActive must be a boolean''])
     @ (case up_page ps of
          None \<Rightarrow> []
        | Some n \<Rightarrow> if 1 \<le> n then [] else [''Page must be a positive integer''])
     @ (case up_limit ps of
          None \<Rightarrow> []
        | Some n \<Rightarrow> if 1 \<le> n \<and> n \<le> 100 then [] else [''Limit must be between 1 and 100''])"

record users_page =
  page_count :: nat
  page_total :: nat
  page_data :: "user list"

text \<open>\<^verbatim>\<open>getUsers\<close>: the filter \<^verbatim>\<open>query\<close>, as a predicate on a stored user.\<close>

definition getUsers_query :: "(string \<Rightarrow> string \<Rightarrow> bool) \<Rightarrow> users_params \<Rightarrow> user \<Rightarrow> bool" where
  "getUsers_query rx ps u =
     ((if truthy (up_role ps) then Some (role_string (role u)) = up_role ps else True)
      \<and> (case up_isActive ps of None \<Rightarrow> True | Some v \<Rightarrow> isActive u = (v = ''true''))
      \<and> (case up_search ps of
            None \<Rightarrow> True
          | Some s \<Rightarrow> if s \<noteq> [] then rx s (name u) \<or> rx s (email u) else True))"

text \<open>
  \<^verbatim>\<open>getUsers\<close>. \<open>srt\<close> is MongoDB's sort of the matching users by a field name and a
  direction (\<open>True\<close> for descending). \<open>drop\<close> and \<open>take\<close> are \<^verbatim>\<open>skip\<close> and \<^verbatim>\<open>limit\<close> on
  the range the validation admits (\<open>1 \<le> page\<close>, \<open>1 \<le> limit\<close>). The \<^verbatim>\<open>pagination\<close> entry
  of the answer only repeats the page and the limit and is left out.
\<close>

definition getUsers ::
  "(string \<Rightarrow> string \<Rightarrow> bool) \<Rightarrow> (string \<Rightarrow> bool \<Rightarrow> user list \<Rightarrow> user list) \<Rightarrow> string list
     \<Rightarrow> user list \<Rightarrow> users_params \<Rightarrow> failure + users_page" where
  "getUsers rx srt errors users ps =
     (if errors \<noteq> [] then Inl (Status 400 ''Validation failed'')
      else let page = (case up_page ps of None \<Rightarrow> 1 | Some n \<Rightarrow> n);
               limit = (case up_limit ps of None \<Rightarrow> 50 | Some n \<Rightarrow> n);
               sortBy = (case up_sortBy ps of None \<Rightarrow> ''createdAt'' | Some f \<Rightarrow> f);
               sortOrder = (case up_sortOrder ps of None \<Rightarrow> ''desc'' | Some d \<Rightarrow> d);
               skip = (page - 1) * limit;
               found = filter (getUsers_query rx ps) users;
               shown = map select_no_password
                         (take (nat limit) (drop (nat skip) (srt sortBy (sortOrder = ''desc'') found)))
           in Inr \<lparr>page_count = length shown, page_total = length found, page_data = shown\<rparr>)"

record task_stats =
  stats_total :: nat
  stats_todo :: nat
  stats_inprogress :: nat
  stats_done :: nat
  stats_totalTimeSpent :: int

text \<open>\<^verbatim>\<open>getUser\<close>: the user and the statistics of the unarchived tasks assigned to them.\<close>

definition getUser :: "user list \<Rightarrow> task list \<Rightarrow> oid \<Rightarrow> failure + user \<times> task_stats" where
  "getUser users tasks i =
     (case User_findById users (Some i) of
        None \<Rightarrow> Inl (Status 404 ''User not found'')
      | Some found \<Rightarrow>
          let user = select_no_password found;
              assigned = filter (\<lambda>t. assigneeId t = user_id user \<and> isArchived t = False) tasks;
              taskStats =
                \<lparr>stats_total = length assigned,
                 stats_todo = length (filter (\<lambda>t. status t = Todo) assigned),
                 stats_inprogress = length (filter (\<lambda>t. status t = Inprogress) assigned),
                 stats_done = length (filter (\<lambda>t. status t = Done) assigned),
                 stats_totalTimeSpent = sum_list (map timeSpent assigned)\<rparr>
          in Inr (user, taskStats))"

text \<open>
  The routes of \<^verbatim>\<open>userRoutes.js\<close>. The line \<^verbatim>\<open>router.use(protect)\<close> is a comment, so no
  middleware of this router reads the request's credential or sets \<^verbatim>\<open>req.user\<close>:
  \<^verbatim>\<open>router.get('/', getUsersValidation, getUsers)\<close>, \<^verbatim>\<open>router.get('/:id', getUser)\<close>,
  \<^verbatim>\<open>router.put('/:id', authorize('admin'), updateUser)\<close> and
  \<^verbatim>\<open>router.delete('/:id', authorize('admin'), deleteUser)\<close>. The last two take the
  answer of the handler that follows \<^verbatim>\<open>authorize\<close> as \<open>handler\<close>.
\<close>

definition GET_users ::
  "(string \<Rightarrow> string \<Rightarrow> bool) \<Rightarrow> (string \<Rightarrow> bool \<Rightarrow> user list \<Rightarrow> user list) \<Rightarrow> user list
     \<Rightarrow> http_request \<Rightarrow> users_params \<Rightarrow> failure + users_page" where
  "GET_users rx srt users req ps = getUsers rx srt (getUsersValidation ps) users ps"

definition GET_user ::
  "user list \<Rightarrow> task list \<Rightarrow> http_request \<Rightarrow> oid \<Rightarrow> failure + user \<times> task_stats" where
  "GET_user users tasks req i = getUser users tasks i"

definition PUT_user :: "http_request \<Rightarrow> (user \<Rightarrow> failure + 'a) \<Rightarrow> failure + 'a" where
  "PUT_user req handler =
     (case authorize [Admin] (req_user req) of Inl e \<Rightarrow> Inl e | Inr u \<Rightarrow> handler u)"

definition DELETE_user :: "http_request \<Rightarrow> (user \<Rightarrow> failure + 'a) \<Rightarrow> failure + 'a" where
  "DELETE_user req handler =
     (case authorize [Admin] (req_user req) of Inl e \<Rightarrow> Inl e | Inr u \<Rightarrow> handler u)"

text \<open>A request as it reaches a router: \<^verbatim>\<open>req.user\<close> is undefined.\<close>

definition incoming :: "auth_header option \<Rightarrow> http_request" where
  "incoming h = \<lparr>authorization = h, req_user = None\<rparr>"

section \<open>Example data\<close>

definition user_A1 :: user where
  "user_A1 = \<lparr>user_id = ''A1'', name = ''Ada'', email = ''ada@example.com'',
              password = Some ''hashA'', role = Admin, isActive = True, lastLogin = None\<rparr>"

definition user_V1 :: user where
  "user_V1 = \<lparr>user_id = ''V1'', name = ''Vic'', email = ''vic@example.com'',
              password = Some ''hashV'', role = Vendor, isActive = True, lastLogin = None\<rparr>"

definition user_C1 :: user where
  "user_C1 = \<lparr>user_id = ''C1'', name = ''Cleo'', email = ''cleo@example.com'',
              password = Some ''hashC'', role = Customer, isActive = True, lastLogin = None\<rparr>"

definition user_C2 :: user where
  "user_C2 = \<lparr>user_id = ''C2'', name = ''Cy'', email = ''cy@example.com'',
              password = Some ''hashD'', role = Customer, isActive = True, lastLogin = None\<rparr>"

definition user_V2 :: user where
  "user_V2 = \<lparr>user_id = ''V2'', name = ''Val'', email = ''val@example.com'',
              password = Some ''hashW'', role = Vendor, isActive = False, lastLogin = None\<rparr>"

definition example_users :: "user list" where
  "example_users = [user_A1, user_V1, user_C1, user_C2, user_V2]"

definition task_T1 :: task where
  "task_T1 = \<lparr>task_id = ''T1'', title = ''Fix bug'', description = None, priority = Medium,
              status = Todo, assignee = ''Cleo'', assigneeId = ''C1'', createdBy = ''V1'',
              dueDate = 5000, tags = [], subtasks = [], timeSpent = 0, comments = [],
              isArchived = False, completedAt = None, updatedAt = 0\<rparr>"

definition task_T2 :: task where
  "task_T2 = \<lparr>task_id = ''T2'', title = ''Write report'', description = None, priority = Low,
              status = Todo, assignee = ''Cy'', assigneeId = ''C2'', createdBy = ''A1'',
              dueDate = 6000, tags = [], subtasks = [], timeSpent = 0, comments = [],
              isArchived = False, completedAt = None, updatedAt = 0\<rparr>"

definition task_T3 :: task where
  "task_T3 = \<lparr>task_id = ''T3'', title = ''Old work'', description = None, priority = Low,
              status = Done, assignee = ''Cleo'', assigneeId = ''C1'', createdBy = ''V1'',
              dueDate = 10, tags = [], subtasks = [], timeSpent = 0, comments = [],
              isArchived = True, completedAt = Some 9, updatedAt = 9\<rparr>"

definition example_tasks :: "task list" where
  "example_tasks = [task_T1, task_T2, task_T3]"

definition empty_patch :: task_patch where
  "empty_patch = \<lparr>p_title = None, p_description = None, p_priority = None, p_status = None,
                  p_assignee = None, p_assigneeId = None, p_createdBy = None, p_dueDate = None,
                  p_tags = None, p_subtasks = None, p_timeSpent = None, p_comments = None,
                  p_isArchived = None, p_completedAt = None\<rparr>"

text \<open>
  A request of the task list that sets none of the optional filters (status, priority,
  assigneeId, tags, search) and asks for a page, with a limit and a sort order or with
  the defaults.
\<close>

definition unfiltered ::
  "int option \<Rightarrow> int option \<Rightarrow> string option \<Rightarrow> string option \<Rightarrow> tasks_params" where
  "unfiltered page limit sortBy sortOrder =
     \<lparr>qp_status = None, qp_priority = None, qp_assigneeId = None, qp_tags = None,
      qp_search = None, qp_page = page, qp_limit = limit, qp_sortBy = sortBy,
      qp_sortOrder = sortOrder\<rparr>"

definition no_users_params :: users_params where
  "no_users_params = \<lparr>up_role = None, up_isActive = None, up_search = None, up_page = None,
                      up_limit = None, up_sortBy = None, up_sortOrder = None\<rparr>"

definition example_sockets :: "socket list" where
  "example_sockets = [on_connection 1 (select_no_password user_A1),
                      on_connection 2 (select_no_password user_C2),
                      joinTask ''T1'' (on_connection 3 (select_no_password user_C1))]"

definition subtask_of :: "bool \<Rightarrow> subtask" where
  "subtask_of b = \<lparr>subtask_id = ''S'', subtask_text = ''step'', completed = b\<rparr>"

text \<open>
  The task T1 with 40 subtasks, 23 of them completed, and with 3 subtasks, 2 of them
  completed.
\<close>

definition task_23_of_40 :: task where
  "task_23_of_40 = task_T1\<lparr>subtasks := replicate 23 (subtask_of True)
                                            @ replicate 17 (subtask_of False)\<rparr>"

definition task_2_of_3 :: task where
  "task_2_of_3 = task_T1\<lparr>subtasks := replicate 2 (subtask_of True)
                                          @ replicate 1 (subtask_of False)\<rparr>"

section \<open>The task state machine\<close>

text \<open>
  Claim C7. The status transition applied at save time is idempotent on \<open>completedAt\<close>:
  a second save under the same target status leaves \<open>completedAt\<close> as the first save
  set it. The second save sees the status as modified only if the first did
  (\<open>m2 \<longrightarrow> m1\<close>): writing the status a document already has does not mark it modified.
  The hook changes no field other than \<open>completedAt\<close> and \<open>updatedAt\<close>; title, priority,
  assigneeId, dueDate, tags, subtasks, comments, timeSpent and the status itself pass
  through.
\<close>

theorem pre_save_idempotent_frame:
  "(m2 \<longrightarrow> m1) \<Longrightarrow>
     completedAt (taskSchema_pre_save n2 m2 (taskSchema_pre_save n1 m1 t))
       = completedAt (taskSchema_pre_save n1 m1 t)
   \<and> taskSchema_pre_save n1 m1 t
       = t\<lparr>completedAt := completedAt (taskSchema_pre_save n1 m1 t), updatedAt := n1\<rparr>
   \<and> title (taskSchema_pre_save n1 m1 t) = title t
   \<and> priority (taskSchema_pre_save n1 m1 t) = priority t
   \<and> assigneeId (taskSchema_pre_save n1 m1 t) = assigneeId t
   \<and> dueDate (taskSchema_pre_save n1 m1 t) = dueDate t
   \<and> tags (taskSchema_pre_save n1 m1 t) = tags t
   \<and> subtasks (taskSchema_pre_save n1 m1 t) = subtasks t
   \<and> comments (taskSchema_pre_save n1 m1 t) = comments t
   \<and> timeSpent (taskSchema_pre_save n1 m1 t) = timeSpent t
   \<and> status (taskSchema_pre_save n1 m1 t) = status t"
  by (cases "completedAt t") (auto simp: taskSchema_pre_save_def Let_def)

theorem pre_save_idempotent_frame_witness:
  "completedAt (taskSchema_pre_save 7 True (task_T1\<lparr>status := Done\<rparr>)) = Some 7
   \<and> completedAt (taskSchema_pre_save 8 True
                     (taskSchema_pre_save 7 True (task_T1\<lparr>status := Done\<rparr>))) = Some 7
   \<and> title (taskSchema_pre_save 7 True (task_T1\<lparr>status := Done\<rparr>)) = ''Fix bug''"
  using pre_save_idempotent_frame [of True True 8 7 "task_T1\<lparr>status := Done\<rparr>"]
  by (simp add: taskSchema_pre_save_def task_T1_def)

text \<open>
  Rounding to a double keeps a number that lies between zero and an integer up to 128
  between the two, so the percentage of \<open>c\<close> completed subtasks out of \<open>t\<close> lies between 0
  and 100.
\<close>

lemma bitlen_mono: "a \<le> b \<Longrightarrow> bitlen a \<le> bitlen b"
proof (induction b arbitrary: a rule: bitlen.induct)
  case (1 n)
  show ?case
  proof (cases "a \<le> 0")
    case True
    then have "bitlen a = 0" by (simp add: bitlen.simps)
    moreover have "0 \<le> bitlen n"
      by (induction n rule: bitlen.induct) (subst bitlen.simps, simp)
    ultimately show ?thesis by simp
  next
    case False
    with "1.prems" have "\<not> n \<le> 0" by simp
    moreover have "a div 2 \<le> n div 2" using "1.prems" by (rule zdiv_mono1) simp
    ultimately have "bitlen (a div 2) \<le> bitlen (n div 2)" by (rule "1.IH")
    with False \<open>\<not> n \<le> 0\<close> show ?thesis
      by (subst (1 2) bitlen.simps) simp
  qed
qed

lemma bitlen_double: "0 < n \<Longrightarrow> bitlen (2 * n) = bitlen n + 1"
  by (subst bitlen.simps) simp

lemma bitlen_128: "0 < n \<Longrightarrow> bitlen (128 * n) = bitlen n + 7"
proof -
  assume n: "0 < n"
  have "128 * n = 2 * (2 * (2 * (2 * (2 * (2 * (2 * n))))))" by simp
  then show ?thesis using n by (simp only: bitlen_double) 
qed

lemma pow2_pos: "0 < pow2 e"
  by (simp add: pow2_def)

lemma pow2_cancel: "pow2 (52 - e) * pow2 (e - 52) = 1"
  by (auto simp: pow2_def power_add [symmetric] nat_diff_distrib)

lemma round_half_even_le: "z \<le> of_int N \<Longrightarrow> round_half_even z \<le> N"
proof -
  assume z: "z \<le> of_int N"
  then have f: "\<lfloor>z\<rfloor> \<le> N" by (simp add: floor_le_iff)
  show ?thesis
  proof (cases "\<lfloor>z\<rfloor> = N")
    case True
    then have "z - of_int \<lfloor>z\<rfloor> \<le> 0" using z by simp
    then show ?thesis using True by (simp add: round_half_even_def Let_def)
  next
    case False
    with f have "\<lfloor>z\<rfloor> + 1 \<le> N" by simp
    then show ?thesis by (auto simp: round_half_even_def Let_def)
  qed
qed

lemma round_half_even_nonneg: "0 \<le> z \<Longrightarrow> 0 \<le> round_half_even z"
  by (auto simp: round_half_even_def Let_def)

lemma to_double_nonneg:
  assumes "0 \<le> x"
  shows "0 \<le> to_double x"
proof (cases "x = 0")
  case True
  then show ?thesis by (simp add: to_double_def)
next
  case False
  with assms have pos: "0 < x" by simp
  let ?e = "binade x"
  have "0 \<le> x * pow2 (52 - ?e)"
    using assms pow2_pos [of "52 - ?e"] by simp
  then have "0 \<le> round_half_even (x * pow2 (52 - ?e))"
    by (rule round_half_even_nonneg)
  then have "(0 :: rat) \<le> of_int (round_half_even (x * pow2 (52 - ?e))) * pow2 (?e - 52)"
    using pow2_pos [of "?e - 52"] by simp
  then show ?thesis
    using pos by (simp add: to_double_def Let_def)
qed

lemma binade_le:
  assumes "0 < x" and "x \<le> 128"
  shows "binade x \<le> 7"
proof -
  obtain p q where pq: "quotient_of x = (p, q)" by (cases "quotient_of x")
  then have q: "0 < q" by (rule quotient_of_denom_pos)
  have x: "x = of_int p / of_int q" using pq by (rule quotient_of_div)
  have "of_int p \<le> (128 :: rat) * of_int q"
    using assms(2) q by (simp add: x pos_divide_le_eq)
  then have "p \<le> 128 * q" by (metis of_int_le_iff of_int_mult of_int_numeral)
  then have "bitlen p \<le> bitlen (128 * q)" by (rule bitlen_mono)
  then have "bitlen p - bitlen q \<le> 7" using q by (simp add: bitlen_128)
  then show ?thesis by (simp add: binade_def pq Let_def)
qed

lemma to_double_le:
  assumes "0 < x" and "x \<le> of_int B" and "B \<le> 128"
  shows "to_double x \<le> of_int B"
proof -
  let ?e = "binade x"
  have "(of_int B :: rat) \<le> of_int 128"
    using assms(3) by (simp only: of_int_le_iff)
  with assms(2) have "x \<le> 128" by simp
  have e: "?e \<le> 7" using assms(1) \<open>x \<le> 128\<close> by (rule binade_le)
  then have int: "pow2 (52 - ?e) = of_int (2 ^ nat (52 - ?e))"
    by (simp add: pow2_def)
  have "x * pow2 (52 - ?e) \<le> of_int B * pow2 (52 - ?e)"
    using assms(2) pow2_pos [of "52 - ?e"] by (simp add: mult_right_mono)
  then have "x * pow2 (52 - ?e) \<le> of_int (B * 2 ^ nat (52 - ?e))"
    by (simp add: int)
  then have "round_half_even (x * pow2 (52 - ?e)) \<le> B * 2 ^ nat (52 - ?e)"
    by (rule round_half_even_le)
  then have "(of_int (round_half_even (x * pow2 (52 - ?e))) :: rat) \<le> of_int (B * 2 ^ nat (52 - ?e))"
    by (simp only: of_int_le_iff)
  then have "of_int (round_half_even (x * pow2 (52 - ?e))) * pow2 (?e - 52)
        \<le> of_int B * pow2 (52 - ?e) * pow2 (?e - 52)"
    using pow2_pos [of "?e - 52"] by (simp add: int mult_right_mono)
  also have "\<dots> = of_int B"
    by (simp add: mult.assoc pow2_cancel)
  finally show ?thesis
    using assms(1) by (simp add: to_double_def Let_def)
qed

lemma percentage_bounds:
  assumes "c \<le> t" and "0 < t"
  shows "0 \<le> Math_round (js_mul (js_div (of_nat c) (of_nat t)) 100)"
    and "Math_round (js_mul (js_div (of_nat c) (of_nat t)) 100) \<le> 100"
proof -
  let ?x = "(of_nat c / of_nat t) :: rat"
  have x: "0 \<le> ?x" "?x \<le> 1" using assms by (simp_all add: divide_le_eq)
  have d0: "0 \<le> js_div (of_nat c) (of_nat t)"
    unfolding js_div_def using x(1) by (rule to_double_nonneg)
  have d1: "js_div (of_nat c) (of_nat t) \<le> 1"
  proof (cases "?x = 0")
    case True
    then show ?thesis by (simp add: js_div_def to_double_def)
  next
    case False
    with x(1) have "0 < ?x" by simp
    from to_double_le [OF this, of 1] x(2) show ?thesis by (simp add: js_div_def)
  qed
  let ?y = "js_div (of_nat c) (of_nat t) * 100"
  have y: "0 \<le> ?y" "?y \<le> 100" using d0 d1 by simp_all
  have m0: "0 \<le> js_mul (js_div (of_nat c) (of_nat t)) 100"
    unfolding js_mul_def using y(1) by (rule to_double_nonneg)
  have m1: "js_mul (js_div (of_nat c) (of_nat t)) 100 \<le> 100"
  proof (cases "?y = 0")
    case True
    then show ?thesis by (simp add: js_mul_def to_double_def)
  next
    case False
    with y(1) have "0 < ?y" by simp
    from to_double_le [OF this, of 100] y(2) show ?thesis by (simp add: js_mul_def)
  qed
  show "0 \<le> Math_round (js_mul (js_div (of_nat c) (of_nat t)) 100)"
    using m0 by (simp add: Math_round_def)
  show "Math_round (js_mul (js_div (of_nat c) (of_nat t)) 100) \<le> 100"
    using m1 by (simp add: Math_round_def floor_le_iff)
qed

text \<open>
  The double-precision quotient and product stay within \<open>101 / 2 ^ 46\<close> of the exact
  value \<open>completed / total * 100\<close>; twice the total times that value is an integer, so for
  a total below \<open>2 ^ 32\<close> the rounded percentage is an integer nearest to the exact value.
\<close>

lemma round_half_even_error: "\<bar>of_int (round_half_even z) - z\<bar> \<le> 1 / 2"
proof -
  have "of_int \<lfloor>z\<rfloor> \<le> z" and "z < of_int \<lfloor>z\<rfloor> + 1"
    by linarith+
  then show ?thesis
    by (auto simp: round_half_even_def Let_def abs_le_iff)
qed

lemma pow2_small: "e \<le> 7 \<Longrightarrow> pow2 (e - 52) \<le> 1 / 2 ^ 45"
proof -
  assume e: "e \<le> 7"
  then have "(2 :: rat) ^ 45 \<le> 2 ^ nat (52 - e)"
    by (intro power_increasing) simp_all
  then have "1 / (2 :: rat) ^ nat (52 - e) \<le> 1 / 2 ^ 45"
    by (intro divide_left_mono) simp_all
  moreover have "pow2 (e - 52) = 1 / 2 ^ nat (52 - e)"
    using e by (simp add: pow2_def)
  ultimately show ?thesis by simp
qed

lemma to_double_error:
  assumes "0 \<le> x" and "x \<le> 128"
  shows "\<bar>to_double x - x\<bar> \<le> 1 / 2 ^ 46"
proof (cases "x = 0")
  case True
  then show ?thesis by (simp add: to_double_def)
next
  case False
  with assms have pos: "0 < x" by simp
  let ?e = "binade x"
  let ?z = "x * pow2 (52 - ?e)"
  have e: "?e \<le> 7" using pos assms(2) by (rule binade_le)
  have td: "to_double x = of_int (round_half_even ?z) * pow2 (?e - 52)"
    using pos by (simp add: to_double_def Let_def)
  have x: "x = ?z * pow2 (?e - 52)"
    by (simp add: mult.assoc pow2_cancel)
  have "to_double x - x = (of_int (round_half_even ?z) - ?z) * pow2 (?e - 52)"
    by (subst x, subst td) (simp add: algebra_simps)
  then have "\<bar>to_double x - x\<bar> = \<bar>of_int (round_half_even ?z) - ?z\<bar> * pow2 (?e - 52)"
    using pow2_pos [of "?e - 52"] by (simp add: abs_mult)
  also have "\<dots> \<le> 1 / 2 * pow2 (?e - 52)"
    using round_half_even_error [of ?z] pow2_pos [of "?e - 52"] by (simp add: mult_right_mono)
  also have "\<dots> \<le> 1 / 2 * (1 / 2 ^ 45)"
    using pow2_small [OF e] by simp
  also have "\<dots> = 1 / 2 ^ 46"
    by simp
  finally show ?thesis .
qed

lemma double_percentage_error:
  assumes "c \<le> t" and "0 < t"
  shows "\<bar>js_mul (js_div (of_nat c) (of_nat t)) 100 - of_nat c / of_nat t * 100\<bar> \<le> 101 / 2 ^ 46"
proof -
  define q :: rat where "q = of_nat c / of_nat t"
  define d where "d = js_div (of_nat c) (of_nat t)"
  define y where "y = js_mul d 100"
  have q0: "0 \<le> q" and q1: "q \<le> 1"
    using assms by (simp_all add: q_def divide_le_eq)
  then have q128: "q \<le> 128" by simp
  have d_def': "d = to_double q" by (simp add: d_def q_def js_div_def)
  have d_err: "\<bar>d - q\<bar> \<le> 1 / 2 ^ 46"
    unfolding d_def' using q0 q128 by (rule to_double_error)
  have d0: "0 \<le> d" unfolding d_def' using q0 by (rule to_double_nonneg)
  have d1: "d \<le> 1"
  proof (cases "q = 0")
    case True
    then show ?thesis by (simp add: d_def' to_double_def)
  next
    case False
    with q0 have "0 < q" by simp
    from to_double_le [OF this, of 1] q1 show ?thesis by (simp add: d_def')
  qed
  have "0 \<le> d * 100" and "d * 100 \<le> 128" using d0 d1 by simp_all
  then have "\<bar>to_double (d * 100) - d * 100\<bar> \<le> 1 / 2 ^ 46" by (rule to_double_error)
  then have m_err: "\<bar>y - d * 100\<bar> \<le> 1 / 2 ^ 46" by (simp add: y_def js_mul_def)
  define eps :: rat where "eps = 1 / 2 ^ 46"
  have "\<bar>y - d * 100\<bar> \<le> eps" and "\<bar>d - q\<bar> \<le> eps"
    using m_err d_err by (simp_all only: eps_def)
  then have "\<bar>y - q * 100\<bar> \<le> 101 * eps" by linarith
  then have "\<bar>y - q * 100\<bar> \<le> 101 / 2 ^ 46" by (simp only: eps_def times_divide_eq_right mult_1_right)
  then show ?thesis by (simp only: y_def d_def q_def)
qed

lemma percentage_nearest:
  assumes "c \<le> t" and "0 < t" and "t < 2 ^ 32"
  shows "\<bar>of_int (Math_round (js_mul (js_div (of_nat c) (of_nat t)) 100))
           - (of_nat c / of_nat t * 100 :: rat)\<bar> \<le> 1 / 2"
proof -
  define x :: rat where "x = of_nat c / of_nat t * 100"
  define y where "y = js_mul (js_div (of_nat c) (of_nat t)) 100"
  define p where "p = Math_round y"
  define T :: rat where "T = 2 * of_nat t"
  have err: "\<bar>y - x\<bar> \<le> 101 / 2 ^ 46"
    unfolding x_def y_def using assms(1,2) by (rule double_percentage_error)
  have p1: "of_int p \<le> y + 1 / 2" and p2: "y + 1 / 2 < of_int p + 1"
    unfolding p_def Math_round_def by linarith+
  have Tpos: "0 < T" using assms(2) by (simp add: T_def)
  have Tx: "T * x = of_int (200 * int c)"
    using assms(2) by (simp add: T_def x_def)
  have Tint: "T = of_int (2 * int t)" by (simp add: T_def)
  have "(of_nat t :: rat) < 2 ^ 32" using assms(3)
    by (metis of_nat_less_iff of_nat_numeral of_nat_power)
  then have "101 * T < 2 ^ 46" by (simp add: T_def)
  then have small: "101 / 2 ^ 46 < 1 / T"
    using Tpos by (simp add: field_simps)
  have upper: "of_int p \<le> x + 1 / 2"
  proof (rule ccontr)
    assume "\<not> of_int p \<le> x + 1 / 2"
    then have "x + 1 / 2 < of_int p" by simp
    then have "T * (x + 1 / 2) < T * of_int p"
      using Tpos by (intro mult_strict_left_mono)
    then have "T * x + of_int (int t) < T * of_int p"
      by (simp add: T_def algebra_simps)
    then have "(of_int (200 * int c + int t) :: rat) < of_int (2 * int t * p)"
      unfolding Tx unfolding Tint by simp
    then have "200 * int c + int t < 2 * int t * p" by (simp only: of_int_less_iff)
    then have "200 * int c + int t + 1 \<le> 2 * int t * p" by simp
    then have "(of_int (200 * int c + int t + 1) :: rat) \<le> of_int (2 * int t * p)"
      by (simp only: of_int_le_iff)
    then have "T * x + of_int (int t) + 1 \<le> T * of_int p"
      unfolding Tx unfolding Tint by simp
    then have "T * (x + 1 / 2) + 1 \<le> T * of_int p"
      by (simp add: T_def algebra_simps)
    then have "T * (x + 1 / 2 + 1 / T) \<le> T * of_int p"
      using Tpos by (simp add: algebra_simps)
    then have "x + 1 / 2 + 1 / T \<le> of_int p"
      using Tpos by (simp only: mult_le_cancel_left_pos)
    with p1 err small show False by (simp add: abs_le_iff)
  qed
  have lower: "x - 1 / 2 \<le> of_int p"
  proof (rule ccontr)
    assume "\<not> x - 1 / 2 \<le> of_int p"
    then have "of_int p < x - 1 / 2" by simp
    then have "T * of_int p < T * (x - 1 / 2)"
      using Tpos by (intro mult_strict_left_mono)
    then have "T * of_int p < T * x - of_int (int t)"
      by (simp add: T_def algebra_simps)
    then have "(of_int (2 * int t * p) :: rat) < of_int (200 * int c - int t)"
      unfolding Tx unfolding Tint by simp
    then have "2 * int t * p < 200 * int c - int t" by (simp only: of_int_less_iff)
    then have "2 * int t * p + 1 \<le> 200 * int c - int t" by simp
    then have "(of_int (2 * int t * p + 1) :: rat) \<le> of_int (200 * int c - int t)"
      by (simp only: of_int_le_iff)
    then have "T * of_int p + 1 \<le> T * x - of_int (int t)"
      unfolding Tx unfolding Tint by simp
    then have "T * of_int p + 1 \<le> T * (x - 1 / 2)"
      by (simp add: T_def algebra_simps)
    then have "T * (of_int p + 1 / T) \<le> T * (x - 1 / 2)"
      using Tpos by (simp add: algebra_simps)
    then have "of_int p + 1 / T \<le> x - 1 / 2"
      using Tpos by (simp only: mult_le_cancel_left_pos)
    with p2 err small show False by (simp add: abs_le_iff)
  qed
  from upper lower have "\<bar>of_int p - x\<bar> \<le> 1 / 2" by linarith
  then show ?thesis by (simp only: p_def y_def x_def)
qed

lemma percentage_spec_or_tie:
  assumes "c \<le> t" and "0 < t" and "t < 2 ^ 32"
  shows "Math_round (js_mul (js_div (of_nat c) (of_nat t)) 100) = spec_percentage c t
       \<or> (Math_round (js_mul (js_div (of_nat c) (of_nat t)) 100) = spec_percentage c t - 1
          \<and> (of_nat c / of_nat t * 100 + 1 / 2 :: rat) = of_int (spec_percentage c t))"
proof -
  define x :: rat where "x = of_nat c / of_nat t * 100"
  define p where "p = Math_round (js_mul (js_div (of_nat c) (of_nat t)) 100)"
  define s where "s = spec_percentage c t"
  have s_def': "s = \<lfloor>x + 1 / 2\<rfloor>" by (simp only: s_def spec_percentage_def x_def)
  have s1: "of_int s \<le> x + 1 / 2" and s2: "x + 1 / 2 < of_int s + 1"
    unfolding s_def' by linarith+
  have "\<bar>of_int p - x\<bar> \<le> 1 / 2"
    unfolding p_def x_def using assms by (rule percentage_nearest)
  then have p1: "of_int p \<le> x + 1 / 2" and p2: "x - 1 / 2 \<le> of_int p"
    by linarith+
  have "(of_int p :: rat) < of_int (s + 1)" using p1 s2 by simp
  then have "p < s + 1" by (simp only: of_int_less_iff)
  then have le: "p \<le> s" by simp
  have "(of_int (s - 1) :: rat) \<le> of_int p" using p2 s1 by simp
  then have ge: "s - 1 \<le> p" by (simp only: of_int_le_iff)
  have "p = s \<or> (p = s - 1 \<and> x + 1 / 2 = of_int s)"
  proof (cases "p = s")
    case True
    then show ?thesis by simp
  next
    case False
    with le ge have eq: "p = s - 1" by simp
    then have "(of_int p :: rat) = of_int s - 1" by simp
    with p2 have "x + 1 / 2 \<le> of_int s" by simp
    with s1 eq show ?thesis by simp
  qed
  then show ?thesis by (simp only: p_def s_def x_def)
qed

lemma task_23_of_40_counts:
  "subtasks task_23_of_40 \<noteq> []"
  "length (filter completed (subtasks task_23_of_40)) = 23"
  "length (subtasks task_23_of_40) = 40"
  by (simp_all add: task_23_of_40_def subtask_of_def)

lemma task_2_of_3_counts:
  "subtasks task_2_of_3 \<noteq> []"
  "length (filter completed (subtasks task_2_of_3)) = 2"
  "length (subtasks task_2_of_3) = 3"
  by (simp_all add: task_2_of_3_def subtask_of_def numeral_2_eq_2 numeral_3_eq_3)

lemma double_23_of_40: "Math_round (js_mul (js_div (of_nat 23) (of_nat 40)) 100) = 57"
  by code_simp

lemma spec_percentage_23_of_40: "spec_percentage 23 40 = 58"
  by code_simp

lemma spec_percentage_2_of_3: "spec_percentage 2 3 = 67"
  by code_simp

text \<open>
  Claim C8, as the claim states it, fails where \<^verbatim>\<open>completed / total * 100\<close> is exactly
  halfway between two integers and the double-precision product falls below it: at 23
  completed subtasks of 40 the exact value is 57.5, which rounds to 58, and the getter
  answers 57.
\<close>

theorem subtaskProgress_rounding_counterexample:
  "progress_percentage (subtaskProgress task_23_of_40) = 57
   \<and> spec_percentage (length (filter completed (subtasks task_23_of_40)))
                      (length (subtasks task_23_of_40)) = 58"
proof -
  have "subtaskProgress task_23_of_40
      = \<lparr>progress_completed = 23, progress_total = 40,
         progress_percentage = Math_round (js_mul (js_div (of_nat 23) (of_nat 40)) 100)\<rparr>"
  proof -
    have "(40 :: nat) \<noteq> 0" by simp
    then show ?thesis
      by (simp only: subtaskProgress_def Let_def task_23_of_40_counts(2,3) if_False)
  qed
  then have "progress_percentage (subtaskProgress task_23_of_40) = 57"
    by (simp only: double_23_of_40 subtask_progress.select_convs)
  moreover have "spec_percentage (length (filter completed (subtasks task_23_of_40)))
                      (length (subtasks task_23_of_40)) = 58"
    by (simp only: task_23_of_40_counts(2,3) spec_percentage_23_of_40)
  ultimately show ?thesis by (rule conjI)
qed

text \<open>
  Claim C8, amended. The subtask progress of a task is the number of completed subtasks,
  the number of subtasks and the percentage \<^verbatim>\<open>Math.round((completed / total) * 100)\<close>
  computed in double precision, and it is all zero for a task without subtasks. For a
  task with subtasks (an array holds fewer than \<open>2 ^ 32\<close>) that percentage is an integer
  at distance at most one half from the exact value of \<open>completed / total * 100\<close>; it is
  the exact value rounded to the nearest integer with a tie going up, except that it may
  be one less when the exact value is a tie. The completed count never exceeds the total,
  the percentage lies between 0 and 100, and reading the progress leaves the task as it
  was.
\<close>

theorem subtaskProgress_projection:
  "subtaskProgress t =
     (if subtasks t = []
      then \<lparr>progress_completed = 0, progress_total = 0, progress_percentage = 0\<rparr>
      else \<lparr>progress_completed = length (filter completed (subtasks t)),
            progress_total = length (subtasks t),
            progress_percentage =
              Math_round (js_mul (js_div (of_nat (length (filter completed (subtasks t))))
                                         (of_nat (length (subtasks t)))) 100)\<rparr>)
   \<and> (subtasks t \<noteq> [] \<and> length (subtasks t) < 2 ^ 32
      \<longrightarrow> \<bar>of_int (progress_percentage (subtaskProgress t))
            - (of_nat (length (filter completed (subtasks t))) / of_nat (length (subtasks t)) * 100
                 :: rat)\<bar> \<le> 1 / 2
          \<and> (progress_percentage (subtaskProgress t)
                = spec_percentage (length (filter completed (subtasks t))) (length (subtasks t))
              \<or> progress_percentage (subtaskProgress t)
                  = spec_percentage (length (filter completed (subtasks t))) (length (subtasks t)) - 1
                \<and> (of_nat (length (filter completed (subtasks t))) / of_nat (length (subtasks t)) * 100
                     + 1 / 2 :: rat)
                    = of_int (spec_percentage (length (filter completed (subtasks t)))
                                              (length (subtasks t)))))
   \<and> progress_completed (subtaskProgress t) \<le> progress_total (subtaskProgress t)
   \<and> 0 \<le> progress_percentage (subtaskProgress t)
   \<and> progress_percentage (subtaskProgress t) \<le> 100
   \<and> snd (get_subtaskProgress t) = t
   \<and> fst (get_subtaskProgress t) = subtaskProgress t"
proof (cases "subtasks t = []")
  case True
  then show ?thesis
    by (simp add: subtaskProgress_def get_subtaskProgress_def)
next
  case False
  define c where "c = length (filter completed (subtasks t))"
  define n where "n = length (subtasks t)"
  define p where "p = Math_round (js_mul (js_div (of_nat c) (of_nat n)) 100)"
  have cn: "c \<le> n" and n: "0 < n"
    using False by (simp_all add: c_def n_def)
  have sp: "subtaskProgress t
      = \<lparr>progress_completed = c, progress_total = n, progress_percentage = p\<rparr>"
    using False by (simp add: subtaskProgress_def Let_def c_def n_def p_def)
  have near: "n < 2 ^ 32 \<Longrightarrow> \<bar>of_int p - (of_nat c / of_nat n * 100 :: rat)\<bar> \<le> 1 / 2"
    unfolding p_def using cn n by (rule percentage_nearest)
  have tie: "n < 2 ^ 32 \<Longrightarrow> p = spec_percentage c n
       \<or> (p = spec_percentage c n - 1
          \<and> (of_nat c / of_nat n * 100 + 1 / 2 :: rat) = of_int (spec_percentage c n))"
    unfolding p_def using cn n by (rule percentage_spec_or_tie)
  have range: "0 \<le> p" "p \<le> 100"
    unfolding p_def using percentage_bounds [OF cn n] by blast+
  have "subtaskProgress t
      = \<lparr>progress_completed = c, progress_total = n, progress_percentage = p\<rparr>
   \<and> (n < 2 ^ 32
      \<longrightarrow> \<bar>of_int p - (of_nat c / of_nat n * 100 :: rat)\<bar> \<le> 1 / 2
          \<and> (p = spec_percentage c n
              \<or> p = spec_percentage c n - 1
                \<and> (of_nat c / of_nat n * 100 + 1 / 2 :: rat) = of_int (spec_percentage c n)))
   \<and> c \<le> n \<and> 0 \<le> p \<and> p \<le> 100
   \<and> snd (get_subtaskProgress t) = t
   \<and> fst (get_subtaskProgress t) = subtaskProgress t"
    using sp near tie cn range by (simp add: get_subtaskProgress_def)
  then show ?thesis
    using False by (simp add: c_def n_def p_def)
qed

text \<open>
  At 23 completed subtasks of 40 the exact value is the tie 57.5 and the percentage is
  57, one less than the exact rounding; at 2 of 3 the percentage is 67, the exact
  rounding of 66.66...; the task T1 has no subtasks.
\<close>

theorem subtaskProgress_projection_witness:
  "subtaskProgress task_23_of_40
     = \<lparr>progress_completed = 23, progress_total = 40, progress_percentage = 57\<rparr>
   \<and> spec_percentage 23 40 - 1 = 57
   \<and> (of_nat 23 / of_nat 40 * 100 + 1 / 2 :: rat) = of_int (spec_percentage 23 40)
   \<and> progress_percentage (subtaskProgress task_2_of_3) = spec_percentage 2 3
   \<and> \<bar>of_int (progress_percentage (subtaskProgress task_2_of_3))
       - (of_nat 2 / of_nat 3 * 100 :: rat)\<bar> \<le> 1 / 2
   \<and> spec_percentage 2 3 = 67
   \<and> subtaskProgress task_T1
     = \<lparr>progress_completed = 0, progress_total = 0, progress_percentage = 0\<rparr>"
proof -
  have empty: "subtasks task_T1 = []"
    by (simp add: task_T1_def)
  have few: "length (subtasks task_2_of_3) < 2 ^ 32"
    by (simp only: task_2_of_3_counts) simp
  have half: "(of_nat 23 / of_nat 40 * 100 + 1 / 2 :: rat) = of_int (spec_percentage 23 40)"
    by (simp add: spec_percentage_23_of_40)
  have second: "spec_percentage 23 40 - 1 = 57"
    by (simp add: spec_percentage_23_of_40)
  note at_23_of_40 = subtaskProgress_projection [of task_23_of_40]
  note at_2_of_3 = subtaskProgress_projection [of task_2_of_3]
  note at_T1 = subtaskProgress_projection [of task_T1]
  from at_23_of_40 have "subtaskProgress task_23_of_40 =
     (if subtasks task_23_of_40 = []
      then \<lparr>progress_completed = 0, progress_total = 0, progress_percentage = 0\<rparr>
      else \<lparr>progress_completed = length (filter completed (subtasks task_23_of_40)),
            progress_total = length (subtasks task_23_of_40),
            progress_percentage =
              Math_round (js_mul (js_div (of_nat (length (filter completed (subtasks task_23_of_40))))
                                         (of_nat (length (subtasks task_23_of_40)))) 100)\<rparr>)"
    by (rule conjunct1)
  then have first: "subtaskProgress task_23_of_40
      = \<lparr>progress_completed = 23, progress_total = 40, progress_percentage = 57\<rparr>"
    by (simp only: task_23_of_40_counts if_False double_23_of_40)
  from at_2_of_3 [THEN conjunct2, THEN conjunct1, rule_format, OF conjI,
      OF task_2_of_3_counts(1) few]
  have near: "\<bar>of_int (progress_percentage (subtaskProgress task_2_of_3))
                - (of_nat 2 / of_nat 3 * 100 :: rat)\<bar> \<le> 1 / 2"
    and "progress_percentage (subtaskProgress task_2_of_3) = spec_percentage 2 3
         \<or> progress_percentage (subtaskProgress task_2_of_3) = spec_percentage 2 3 - 1
           \<and> (of_nat 2 / of_nat 3 * 100 + 1 / 2 :: rat) = of_int (spec_percentage 2 3)"
    by (simp_all only: task_2_of_3_counts)
  then have third: "progress_percentage (subtaskProgress task_2_of_3) = spec_percentage 2 3"
    by (simp add: spec_percentage_2_of_3)
  from at_T1 have "subtaskProgress task_T1 =
     (if subtasks task_T1 = []
      then \<lparr>progress_completed = 0, progress_total = 0, progress_percentage = 0\<rparr>
      else \<lparr>progress_completed = length (filter completed (subtasks task_T1)),
            progress_total = length (subtasks task_T1),
            progress_percentage =
              Math_round (js_mul (js_div (of_nat (length (filter completed (subtasks task_T1))))
                                         (of_nat (length (subtasks task_T1)))) 100)\<rparr>)"
    by (rule conjunct1)
  then have last: "subtaskProgress task_T1
      = \<lparr>progress_completed = 0, progress_total = 0, progress_percentage = 0\<rparr>"
    by (simp add: empty)
  from first second half third near spec_percentage_2_of_3 last show ?thesis by (intro conjI)
qed

section \<open>Credentials\<close>

lemma isActive_select_no_password [simp]: "isActive (select_no_password u) = isActive u"
  by (simp add: select_no_password_def)

text \<open>
  Claim C5. An actor whose \<open>isActive\<close> is false is denied with an Unauthorized failure,
  whatever their role: by \<open>protect\<close> when the credential of a REST request resolves to
  them (status 401), by \<open>login\<close> when a request that passes the validation names their
  email (status 401, the users collection untouched), and by the socket middleware when
  the handshake token resolves to them (the connection is refused with an authentication
  error). No protected handler runs for such an actor: \<open>protect\<close> either answers with
  status 401 or calls \<^verbatim>\<open>next\<close> with an active user, the socket middleware either
  refuses the connection or accepts an active user, and \<open>login\<close> issues a token to active
  users only.
\<close>

theorem inactive_actor_unauthorized:
  assumes "\<not> isActive u"
  shows "(jwt_verify tok secret now = Some c \<and> User_findById users (map_of c ''userId'') = Some u
            \<longrightarrow> protect secret now users \<lparr>authorization = Some (Bearer (Some tok)), req_user = r\<rparr>
                  = Inl (Status 401 ''User account is deactivated''))
       \<and> (User_findByEmail users e = Some u
            \<longrightarrow> login cmp secret now [] users e pw
                  = (Inl (Status 401 ''Account is deactivated. Please contact administrator.''), users))
       \<and> (jwt_verify tok secret now = Some c \<and> User_findById users (map_of c ''id'') = Some u
            \<longrightarrow> authenticateSocket secret now users (Some tok)
                  = Inl ''Authentication error: Invalid user'')
       \<and> (\<forall>req. (\<exists>m. protect secret now users req = Inl (Status 401 m))
                 \<or> (\<exists>req' a. protect secret now users req = Inr req'
                       \<and> req_user req' = Some a \<and> isActive a))
       \<and> (\<forall>errors t p. fst (login cmp secret now errors users e pw) = Inr (t, p) \<longrightarrow> isActive p)
       \<and> (\<forall>token. (\<exists>m. authenticateSocket secret now users token = Inl m)
                   \<or> (\<exists>a. authenticateSocket secret now users token = Inr a \<and> isActive a))"
proof (intro conjI allI impI)
  assume "jwt_verify tok secret now = Some c \<and> User_findById users (map_of c ''userId'') = Some u"
  with assms show "protect secret now users \<lparr>authorization = Some (Bearer (Some tok)), req_user = r\<rparr>
                  = Inl (Status 401 ''User account is deactivated'')"
    by (simp add: protect_def)
next
  assume "User_findByEmail users e = Some u"
  with assms show "login cmp secret now [] users e pw
                  = (Inl (Status 401 ''Account is deactivated. Please contact administrator.''), users)"
    by (simp add: login_def)
next
  assume "jwt_verify tok secret now = Some c \<and> User_findById users (map_of c ''id'') = Some u"
  with assms show "authenticateSocket secret now users (Some tok)
                  = Inl ''Authentication error: Invalid user''"
    by (simp add: authenticateSocket_def)
next
  fix req
  show "(\<exists>m. protect secret now users req = Inl (Status 401 m))
        \<or> (\<exists>req' a. protect secret now users req = Inr req'
              \<and> req_user req' = Some a \<and> isActive a)"
    by (auto simp: protect_def Let_def split: option.splits auth_header.splits)
next
  fix errors t p
  assume "fst (login cmp secret now errors users e pw) = Inr (t, p)"
  then show "isActive p"
    by (auto simp: login_def Let_def profile_def split: option.splits sum.splits if_splits)
next
  fix token
  show "(\<exists>m. authenticateSocket secret now users token = Inl m)
        \<or> (\<exists>a. authenticateSocket secret now users token = Inr a \<and> isActive a)"
    by (auto simp: authenticateSocket_def Let_def split: option.splits)
qed

theorem inactive_actor_unauthorized_witness:
  "protect ''s3cret'' 10 example_users
      \<lparr>authorization = Some (Bearer (Some (jwt_sign [(''userId'', ''V2'')] ''s3cret'' None 0))),
       req_user = None\<rparr>
     = Inl (Status 401 ''User account is deactivated'')
   \<and> login (\<lambda>p h. True) ''s3cret'' 10 [] example_users ''val@example.com'' ''pw''
     = (Inl (Status 401 ''Account is deactivated. Please contact administrator.''), example_users)
   \<and> authenticateSocket ''s3cret'' 10 example_users
        (Some (jwt_sign [(''id'', ''V2'')] ''s3cret'' None 0))
     = Inl ''Authentication error: Invalid user''"
proof -
  have inactive: "\<not> isActive user_V2"
    by (simp add: user_V2_def)
  have rest: "jwt_verify (jwt_sign [(''userId'', ''V2'')] ''s3cret'' None 0) ''s3cret'' 10
                = Some [(''userId'', ''V2'')]
              \<and> User_findById example_users (map_of [(''userId'', ''V2'')] ''userId'') = Some user_V2"
    by (simp add: jwt_verify_def jwt_sign_def User_findById_def example_users_def
          user_A1_def user_V1_def user_C1_def user_C2_def user_V2_def)
  have mail: "User_findByEmail example_users ''val@example.com'' = Some user_V2"
    by (simp add: User_findByEmail_def example_users_def
          user_A1_def user_V1_def user_C1_def user_C2_def user_V2_def)
  have sock: "jwt_verify (jwt_sign [(''id'', ''V2'')] ''s3cret'' None 0) ''s3cret'' 10
                = Some [(''id'', ''V2'')]
              \<and> User_findById example_users (map_of [(''id'', ''V2'')] ''id'') = Some user_V2"
    by (simp add: jwt_verify_def jwt_sign_def User_findById_def example_users_def
          user_A1_def user_V1_def user_C1_def user_C2_def user_V2_def)
  from inactive_actor_unauthorized [OF inactive, THEN conjunct1, rule_format, OF rest]
    inactive_actor_unauthorized [OF inactive, THEN conjunct2, THEN conjunct1, rule_format, OF mail]
    inactive_actor_unauthorized [OF inactive, THEN conjunct2, THEN conjunct2, THEN conjunct1,
      rule_format, OF sock]
  show ?thesis by blast
qed

lemma login_token:
  assumes "fst (login cmp secret now errors users e pw) = Inr (tok, p)"
  shows "\<exists>i. tok = Jwt secret [(''userId'', i)] None"
  using assms
  by (auto simp: login_def Let_def jwt_sign_def split: option.splits sum.splits if_splits)

text \<open>
  Claim C9. Issuance and verification disagree on the key of the token's payload. A
  token of \<open>generateToken\<close> (payload key \<^verbatim>\<open>id\<close>) is rejected by \<open>protect\<close>, which reads
  \<^verbatim>\<open>userId\<close>, with status 401 for every user and every users collection; a token that
  \<open>login\<close> issues (payload key \<^verbatim>\<open>userId\<close>) is rejected by the socket middleware, which
  reads \<^verbatim>\<open>id\<close>. So \<open>protect\<close> never calls \<^verbatim>\<open>next\<close> on a token of \<open>generateToken\<close> and the
  socket middleware never accepts a token of \<open>login\<close>: no issued token authenticates on
  both interfaces.
\<close>

theorem token_key_mismatch:
  "protect secret now' users
      \<lparr>authorization = Some (Bearer (Some (generateToken secret expire now i))), req_user = r\<rparr>
     = Inl (Status 401 (if now + expire \<le> now' then ''Not authorized to access this route''
                        else ''No user found with this token''))
   \<and> (fst (login cmp secret now errors users e pw) = Inr (tok, p)
        \<longrightarrow> authenticateSocket secret now' users' (Some tok)
              = Inl ''Authentication error: Invalid user'')
   \<and> (\<forall>req'. protect secret now' users
              \<lparr>authorization = Some (Bearer (Some (generateToken secret expire now i))), req_user = r\<rparr>
            \<noteq> Inr req')
   \<and> (fst (login cmp secret now errors users e pw) = Inr (tok, p)
        \<longrightarrow> (\<forall>a. authenticateSocket secret now' users' (Some tok) \<noteq> Inr a))"
proof -
  have register: "protect secret now' users
      \<lparr>authorization = Some (Bearer (Some (generateToken secret expire now i))), req_user = r\<rparr>
     = Inl (Status 401 (if now + expire \<le> now' then ''Not authorized to access this route''
                        else ''No user found with this token''))"
    by (simp add: protect_def generateToken_def jwt_sign_def jwt_verify_def User_findById_def)
  have socket: "authenticateSocket secret now' users' (Some tok)
              = Inl ''Authentication error: Invalid user''"
    if "fst (login cmp secret now errors users e pw) = Inr (tok, p)"
  proof -
    from login_token [OF that] obtain j where "tok = Jwt secret [(''userId'', j)] None" ..
    then show ?thesis
      by (simp add: authenticateSocket_def jwt_verify_def User_findById_def)
  qed
  from register socket show ?thesis by simp
qed

theorem token_key_mismatch_witness:
  "fst (login (\<lambda>p h. True) ''s3cret'' 10 [] example_users ''cleo@example.com'' ''pw'')
     = Inr (Jwt ''s3cret'' [(''userId'', ''C1'')] None, profile (user_C1\<lparr>lastLogin := Some 10\<rparr>))
   \<and> authenticateSocket ''s3cret'' 20 example_users (Some (Jwt ''s3cret'' [(''userId'', ''C1'')] None))
     = Inl ''Authentication error: Invalid user''
   \<and> protect ''s3cret'' 20 example_users
        \<lparr>authorization = Some (Bearer (Some (generateToken ''s3cret'' 1000 10 ''C1''))), req_user = None\<rparr>
     = Inl (Status 401 ''No user found with this token'')"
proof -
  have ok: "fst (login (\<lambda>p h. True) ''s3cret'' 10 [] example_users ''cleo@example.com'' ''pw'')
     = Inr (Jwt ''s3cret'' [(''userId'', ''C1'')] None, profile (user_C1\<lparr>lastLogin := Some 10\<rparr>))"
    by (simp add: login_def User_findByEmail_def example_users_def matchPassword_def jwt_sign_def
          user_A1_def user_V1_def user_C1_def user_C2_def user_V2_def Let_def)
  from token_key_mismatch [of "''s3cret''" 20 example_users 1000 10 "''C1''" None "\<lambda>p h. True" "[]"
      "''cleo@example.com''" "''pw''" "Jwt ''s3cret'' [(''userId'', ''C1'')] None"
      "profile (user_C1\<lparr>lastLogin := Some 10\<rparr>)" example_users] ok
  show ?thesis by simp
qed

text \<open>
  Each token is accepted where the key it carries is the key read: a token of \<open>login\<close>
  by \<open>protect\<close>, a token of \<open>generateToken\<close>, before its expiry, by the socket middleware.
\<close>

lemma token_accepted_by_matching_reader:
  assumes "User_findById users (Some i) = Some u" and "isActive u"
  shows "protect secret now' users
           \<lparr>authorization = Some (Bearer (Some (jwt_sign [(''userId'', i)] secret None now))),
            req_user = r\<rparr>
         = Inr \<lparr>authorization = Some (Bearer (Some (jwt_sign [(''userId'', i)] secret None now))),
                req_user = Some (select_no_password u)\<rparr>"
    and "now' < now + expire \<Longrightarrow>
         authenticateSocket secret now' users (Some (generateToken secret expire now i))
         = Inr (select_no_password u)"
  using assms
  by (simp_all add: protect_def authenticateSocket_def generateToken_def jwt_sign_def
        jwt_verify_def)

section \<open>The mutation pipeline\<close>

lemma Task_findById_id: "Task_findById tasks i = Some t \<Longrightarrow> task_id t = i"
  by (auto simp: Task_findById_def find_Some_iff)

lemma Task_findById_mem: "Task_findById tasks i = Some t \<Longrightarrow> t \<in> set tasks"
  by (auto simp: Task_findById_def find_Some_iff)

lemma User_findById_id: "User_findById users (Some j) = Some a \<Longrightarrow> user_id a = j"
  by (auto simp: User_findById_def find_Some_iff)

lemma find_replace_first:
  "find P xs = Some x \<Longrightarrow> P y \<Longrightarrow> find P (replace_first P y xs) = Some y"
  by (induction xs) (auto split: if_splits)

lemma Task_findById_replace_first:
  "Task_findById tasks i = Some t \<Longrightarrow> task_id t' = i
     \<Longrightarrow> Task_findById (replace_first (\<lambda>x. task_id x = i) t' tasks) i = Some t'"
  unfolding Task_findById_def by (rule find_replace_first) simp_all

lemma apply_status_patch: "apply_patch (empty_patch\<lparr>p_status := Some s\<rparr>) t = t\<lparr>status := s\<rparr>"
  by (simp add: apply_patch_def empty_patch_def)

lemma updateTask_result:
  assumes "Task_findById tasks i = Some t" and "errors = []"
    and "verify_assignee users body = Inr body'" and "update_validators body'"
  shows "updateTask now errors users tasks i body io =
           (Inr (Some ((apply_patch body' t)\<lparr>updatedAt := now\<rparr>)),
            replace_first (\<lambda>x. task_id x = i) ((apply_patch body' t)\<lparr>updatedAt := now\<rparr>) tasks,
            case io of None \<Rightarrow> []
            | Some sockets \<Rightarrow>
                io_emit sockets ''taskUpdated''
                  (Task_data (Some ((apply_patch body' t)\<lparr>updatedAt := now\<rparr>))))"
  using assms by (simp add: updateTask_def Task_findByIdAndUpdate_def Let_def)

lemma PUT_task_status_only:
  assumes "Task_findById tasks i = Some t" and "checkTaskAccess tasks user i = Inr ()"
  shows "PUT_task now users tasks user i (empty_patch\<lparr>p_status := Some s\<rparr>) io
     = (Inr (Some (t\<lparr>status := s, updatedAt := now\<rparr>)),
        replace_first (\<lambda>x. task_id x = i) (t\<lparr>status := s, updatedAt := now\<rparr>) tasks,
        case io of None \<Rightarrow> []
        | Some sockets \<Rightarrow>
            io_emit sockets ''taskUpdated'' (Task_data (Some (t\<lparr>status := s, updatedAt := now\<rparr>))))"
proof -
  let ?body = "empty_patch\<lparr>p_status := Some s\<rparr>"
  have v: "updateTaskValidation ?body = []" "verify_assignee users ?body = Inr ?body"
    "update_validators ?body"
    by (simp_all add: updateTaskValidation_def verify_assignee_def update_validators_def
          empty_patch_def truthy_def)
  have "PUT_task now users tasks user i ?body io
          = updateTask now [] users tasks i ?body io"
    using assms(2) v(1) by (simp add: PUT_task_def)
  also have "\<dots> = (Inr (Some ((apply_patch ?body t)\<lparr>updatedAt := now\<rparr>)),
            replace_first (\<lambda>x. task_id x = i) ((apply_patch ?body t)\<lparr>updatedAt := now\<rparr>) tasks,
            case io of None \<Rightarrow> []
            | Some sockets \<Rightarrow>
                io_emit sockets ''taskUpdated''
                  (Task_data (Some ((apply_patch ?body t)\<lparr>updatedAt := now\<rparr>))))"
    using assms(1) v(2,3) by (rule updateTask_result [OF _ refl])
  finally show ?thesis
    by (simp add: apply_status_patch split: option.splits)
qed

lemma example_T1_found: "Task_findById example_tasks ''T1'' = Some task_T1"
  by (simp add: Task_findById_def example_tasks_def task_T1_def task_T2_def task_T3_def)

lemma example_T3_found: "Task_findById example_tasks ''T3'' = Some task_T3"
  by (simp add: Task_findById_def example_tasks_def task_T1_def task_T2_def task_T3_def)

lemma example_admin_access:
  "checkTaskAccess example_tasks (select_no_password user_A1) ''T1'' = Inr ()"
  by (simp add: checkTaskAccess_def select_no_password_def user_A1_def)

text \<open>
  Claim C1. The claim asks that an update whose patch carries a status goes through the
  state machine of the save hook. The code's update does not: for a task that exists and
  an actor that \<open>checkTaskAccess\<close> admits, an update of the status alone answers with the
  task under the new status and the \<open>completedAt\<close> it had before, and stores it so. Set
  to done, a task keeps a null \<open>completedAt\<close>; moved away from done, it keeps the old
  completion time.
\<close>

theorem update_status_bypasses_pre_save:
  assumes "Task_findById tasks i = Some t" and "checkTaskAccess tasks user i = Inr ()"
  shows "fst (PUT_task now users tasks user i (empty_patch\<lparr>p_status := Some s\<rparr>) io)
           = Inr (Some (t\<lparr>status := s, updatedAt := now\<rparr>))
         \<and> Task_findById (fst (snd (PUT_task now users tasks user i
                                     (empty_patch\<lparr>p_status := Some s\<rparr>) io))) i
           = Some (t\<lparr>status := s, updatedAt := now\<rparr>)
         \<and> completedAt (t\<lparr>status := s, updatedAt := now\<rparr>) = completedAt t"
proof -
  have "task_id (t\<lparr>status := s, updatedAt := now\<rparr>) = i"
    using Task_findById_id [OF assms(1)] by simp
  from Task_findById_replace_first [OF assms(1) this] PUT_task_status_only [OF assms]
  show ?thesis by simp
qed

text \<open>
  The admin sets the open task T1 to done, and the vendor V1 sets the completed task T3
  back to todo: the answers keep the \<open>completedAt\<close> of before, where a save of the same
  change through the hook sets and clears it.
\<close>

theorem update_status_bypasses_pre_save_witness:
  "fst (PUT_task 1000 example_users example_tasks (select_no_password user_A1) ''T1''
          (empty_patch\<lparr>p_status := Some Done\<rparr>) None)
     = Inr (Some (task_T1\<lparr>status := Done, updatedAt := 1000\<rparr>))
   \<and> completedAt (task_T1\<lparr>status := Done, updatedAt := 1000\<rparr>) = None
   \<and> fst (PUT_task 1000 example_users example_tasks (select_no_password user_V1) ''T3''
          (empty_patch\<lparr>p_status := Some Todo\<rparr>) None)
     = Inr (Some (task_T3\<lparr>status := Todo, updatedAt := 1000\<rparr>))
   \<and> completedAt (task_T3\<lparr>status := Todo, updatedAt := 1000\<rparr>) = Some 9
   \<and> completedAt (taskSchema_pre_save 1000 True (task_T1\<lparr>status := Done\<rparr>)) = Some 1000
   \<and> completedAt (taskSchema_pre_save 1000 True (task_T3\<lparr>status := Todo\<rparr>)) = None"
proof -
  have a3: "checkTaskAccess example_tasks (select_no_password user_V1) ''T3'' = Inr ()"
    by (simp add: checkTaskAccess_def select_no_password_def user_V1_def example_T3_found
          task_T3_def)
  from update_status_bypasses_pre_save [OF example_T1_found example_admin_access,
      of 1000 example_users Done None]
    update_status_bypasses_pre_save [OF example_T3_found a3, of 1000 example_users Todo None]
  show ?thesis by (simp add: task_T1_def task_T3_def taskSchema_pre_save_def)
qed








text \<open>
  The filter of a vendor's bulk update: the listed ids, and the tasks the vendor is
  assigned to or has created.
\<close>

lemma vendor_query_matches:
  "matches rx \<lparr>q_id_in = Some ids, q_isArchived = None, q_assigneeId = None,
               q_or = Some [AssigneeId_eq uid, CreatedBy_eq uid], q_status = None,
               q_priority = None, q_tags_in = None\<rparr> t
     \<longleftrightarrow> task_id t \<in> set ids \<and> (assigneeId t = uid \<or> createdBy t = uid)"
  by (simp add: matches_def)

lemma Task_updateMany_props:
  assumes "Task_updateMany now rx q p tasks = (tasks', n)"
  shows "length tasks' = length tasks"
    and "\<And>k. k < length tasks \<Longrightarrow>
           tasks' ! k = (if matches rx q (tasks ! k)
                         then (apply_patch p (tasks ! k))\<lparr>updatedAt := now\<rparr> else tasks ! k)"
    and "n = card {k. k < length tasks \<and> tasks' ! k \<noteq> tasks ! k}"
proof -
  let ?upd = "\<lambda>t. (apply_patch p t)\<lparr>updatedAt := now\<rparr>"
  from assms have t': "tasks' = map (\<lambda>t. if matches rx q t then ?upd t else t) tasks"
    and n: "n = length (filter (\<lambda>t. matches rx q t \<and> ?upd t \<noteq> t) tasks)"
    by (simp_all add: Task_updateMany_def Let_def)
  show "length tasks' = length tasks" by (simp add: t')
  show nth: "tasks' ! k = (if matches rx q (tasks ! k) then ?upd (tasks ! k) else tasks ! k)"
    if "k < length tasks" for k
    using that by (simp add: t')
  have "{k. k < length tasks \<and> matches rx q (tasks ! k) \<and> ?upd (tasks ! k) \<noteq> tasks ! k}
        = {k. k < length tasks \<and> tasks' ! k \<noteq> tasks ! k}"
    using nth by (auto split: if_splits)
  then show "n = card {k. k < length tasks \<and> tasks' ! k \<noteq> tasks ! k}"
    by (simp add: n length_filter_conv_card)
qed

text \<open>
  Claim C4. A bulk update by a vendor, whatever ids it lists: the tasks collection keeps
  its length; a task the vendor neither is assigned to nor has created is left as it
  was; a task that changes is owned by the vendor and listed in the request; and when
  the request is answered with a count, the count is the number of tasks that differ from
  before, every owned and listed task having taken the update.
\<close>

theorem vendor_bulk_update_scoped:
  assumes "role user = Vendor"
    and "PUT_tasks_bulk_update now rx users tasks user taskIds updates io = (answer, tasks', ds)"
  shows "length tasks' = length tasks
       \<and> (\<forall>k<length tasks.
             \<not> (assigneeId (tasks ! k) = user_id user \<or> createdBy (tasks ! k) = user_id user)
             \<longrightarrow> tasks' ! k = tasks ! k)
       \<and> (\<forall>k<length tasks.
             tasks' ! k \<noteq> tasks ! k
             \<longrightarrow> (assigneeId (tasks ! k) = user_id user \<or> createdBy (tasks ! k) = user_id user)
                 \<and> task_id (tasks ! k) \<in> set taskIds)
       \<and> (\<forall>n. answer = Inr n
             \<longrightarrow> n = card {k. k < length tasks \<and> tasks' ! k \<noteq> tasks ! k}
                 \<and> (\<exists>updates'. verify_assignee users updates = Inr updates'
                      \<and> (\<forall>k<length tasks.
                            (assigneeId (tasks ! k) = user_id user
                              \<or> createdBy (tasks ! k) = user_id user)
                            \<and> task_id (tasks ! k) \<in> set taskIds
                            \<longrightarrow> tasks' ! k = (apply_patch updates' (tasks ! k))\<lparr>updatedAt := now\<rparr>)))"
proof (cases "bulkUpdateValidation taskIds = [] \<and> (\<exists>u'. verify_assignee users updates = Inr u')")
  case False
  with assms have "tasks' = tasks" and "\<forall>n. answer \<noteq> Inr n"
    by (auto simp: PUT_tasks_bulk_update_def authorize_def bulkUpdateTasks_def
          split: sum.splits if_splits)
  then show ?thesis by simp
next
  case True
  then obtain updates' where v: "bulkUpdateValidation taskIds = []"
    and a: "verify_assignee users updates = Inr updates'"
    by blast
  let ?q = "\<lparr>q_id_in = Some taskIds, q_isArchived = None, q_assigneeId = None,
             q_or = Some [AssigneeId_eq (user_id user), CreatedBy_eq (user_id user)],
             q_status = None, q_priority = None, q_tags_in = None\<rparr>"
  obtain n where um: "Task_updateMany now rx ?q updates' tasks = (tasks', n)"
    and ans: "answer = Inr n"
    using assms v a
    by (auto simp: PUT_tasks_bulk_update_def authorize_def bulkUpdateTasks_def Let_def
          split: prod.splits)
  note props = Task_updateMany_props [OF um]
  have nth: "tasks' ! k = (if task_id (tasks ! k) \<in> set taskIds
                  \<and> (assigneeId (tasks ! k) = user_id user \<or> createdBy (tasks ! k) = user_id user)
               then (apply_patch updates' (tasks ! k))\<lparr>updatedAt := now\<rparr> else tasks ! k)"
    if "k < length tasks" for k
    using props(2) [OF that] by (simp add: vendor_query_matches)
  show ?thesis
    using props(1) props(3) nth ans a by auto
qed

text \<open>
  The vendor V1 submits the ids of T1, which V1 created, and of T2, which V1 does not
  own: T1 alone takes the new priority and the reported count is 1, not 2.
\<close>

theorem vendor_bulk_update_scoped_witness:
  "PUT_tasks_bulk_update 1000 (\<lambda>p s. False) example_users example_tasks
      (select_no_password user_V1) [''T1'', ''T2''] (empty_patch\<lparr>p_priority := Some High\<rparr>) None
     = (Inr 1, [task_T1\<lparr>priority := High, updatedAt := 1000\<rparr>, task_T2, task_T3], [])
   \<and> card {k. k < length example_tasks
              \<and> [task_T1\<lparr>priority := High, updatedAt := 1000\<rparr>, task_T2, task_T3] ! k
                  \<noteq> example_tasks ! k} = 1
   \<and> [task_T1\<lparr>priority := High, updatedAt := 1000\<rparr>, task_T2, task_T3] ! 1 = example_tasks ! 1"
proof -
  have vend: "role (select_no_password user_V1) = Vendor"
    by (simp add: select_no_password_def user_V1_def)
  have run: "PUT_tasks_bulk_update 1000 (\<lambda>p s. False) example_users example_tasks
      (select_no_password user_V1) [''T1'', ''T2''] (empty_patch\<lparr>p_priority := Some High\<rparr>) None
     = (Inr 1, [task_T1\<lparr>priority := High, updatedAt := 1000\<rparr>, task_T2, task_T3], [])"
    by (simp add: PUT_tasks_bulk_update_def authorize_def bulkUpdateTasks_def
          bulkUpdateValidation_def verify_assignee_def truthy_def Task_updateMany_def
          matches_def apply_patch_def empty_patch_def select_no_password_def
          example_tasks_def task_T1_def task_T2_def task_T3_def user_V1_def Let_def)
  have unowned: "1 < length example_tasks
      \<and> \<not> (assigneeId (example_tasks ! 1) = user_id (select_no_password user_V1)
            \<or> createdBy (example_tasks ! 1) = user_id (select_no_password user_V1))"
    by (simp add: example_tasks_def task_T2_def select_no_password_def user_V1_def)
  note scoped = vendor_bulk_update_scoped [OF vend run]
  from scoped have count: "card {k. k < length example_tasks
              \<and> [task_T1\<lparr>priority := High, updatedAt := 1000\<rparr>, task_T2, task_T3] ! k
                  \<noteq> example_tasks ! k} = 1"
    by simp
  from scoped unowned
  have frame: "[task_T1\<lparr>priority := High, updatedAt := 1000\<rparr>, task_T2, task_T3] ! 1
                 = example_tasks ! 1"
    by blast
  from run count frame show ?thesis by blast
qed

section \<open>Event fanout\<close>

text \<open>
  Claim C6. The claim asks that a task mutation is published to the room of the task and
  to the rooms of the admins and of the vendors only. The update and delete handlers of
  the REST interface emit through \<^verbatim>\<open>req.io.emit\<close>: when the mutation succeeds, its event
  is delivered once to every connected socket, whatever the role of its user and the
  rooms it has joined. The relay of the socket interface (\<open>on_taskUpdate\<close>) does address
  the three rooms.
\<close>

theorem rest_update_reaches_every_socket:
  "(fst (PUT_task now users tasks user i body (Some sockets)) = Inr t'
      \<longrightarrow> snd (snd (PUT_task now users tasks user i body (Some sockets)))
            = map (\<lambda>s. (socket_id s, ''taskUpdated'', Task_data t')) sockets)
   \<and> (fst (DELETE_task tasks user i (Some sockets)) = Inr ()
      \<longrightarrow> snd (snd (DELETE_task tasks user i (Some sockets)))
            = map (\<lambda>s. (socket_id s, ''taskDeleted'', TaskId_data i)) sockets)"
proof (intro conjI impI)
  assume "fst (PUT_task now users tasks user i body (Some sockets)) = Inr t'"
  then show "snd (snd (PUT_task now users tasks user i body (Some sockets)))
            = map (\<lambda>s. (socket_id s, ''taskUpdated'', Task_data t')) sockets"
    by (auto simp: PUT_task_def updateTask_def io_emit_def Let_def
          split: sum.splits option.splits if_splits prod.splits)
next
  assume "fst (DELETE_task tasks user i (Some sockets)) = Inr ()"
  then show "snd (snd (DELETE_task tasks user i (Some sockets)))
            = map (\<lambda>s. (socket_id s, ''taskDeleted'', TaskId_data i)) sockets"
    by (auto simp: DELETE_task_def deleteTask_def io_emit_def
          split: sum.splits option.splits)
qed

text \<open>
  Three sockets are connected: that of the admin A1, that of the customer C2, who is
  neither the assignee of the task T1 nor a member of its room, and that of the customer
  C1, who has joined the room of T1. The admin sets T1 to done through the REST
  interface: all three sockets receive the task, the socket of C2 included. The relay
  of the same edit from the admin's socket reaches the member of the room only.
\<close>

theorem rest_update_reaches_every_socket_witness:
  "snd (snd (PUT_task 1000 example_users example_tasks (select_no_password user_A1) ''T1''
          (empty_patch\<lparr>p_status := Some Done\<rparr>) (Some example_sockets)))
     = [(1, ''taskUpdated'', Task_data (Some (task_T1\<lparr>status := Done, updatedAt := 1000\<rparr>))),
        (2, ''taskUpdated'', Task_data (Some (task_T1\<lparr>status := Done, updatedAt := 1000\<rparr>))),
        (3, ''taskUpdated'', Task_data (Some (task_T1\<lparr>status := Done, updatedAt := 1000\<rparr>)))]
   \<and> map (\<lambda>s. (socket_id s, role (socket_user s), rooms s)) example_sockets
     = [(1, Admin, [''user_A1'', ''role_admin'']),
        (2, Customer, [''user_C2'', ''role_customer'']),
        (3, Customer, [''task_T1'', ''user_C1'', ''role_customer''])]
   \<and> on_taskUpdate example_sockets (on_connection 1 (select_no_password user_A1)) ''T1'' ''edited''
     = [(3, ''taskUpdated'', Client_data ''T1'' ''edited'')]"
proof -
  have ok: "fst (PUT_task 1000 example_users example_tasks (select_no_password user_A1) ''T1''
          (empty_patch\<lparr>p_status := Some Done\<rparr>) (Some example_sockets))
     = Inr (Some (task_T1\<lparr>status := Done, updatedAt := 1000\<rparr>))"
    using PUT_task_status_only [OF example_T1_found example_admin_access,
        of 1000 example_users Done "Some example_sockets"]
    by simp
  have socks: "map (\<lambda>s. (socket_id s, role (socket_user s), rooms s)) example_sockets
     = [(1, Admin, [''user_A1'', ''role_admin'']),
        (2, Customer, [''user_C2'', ''role_customer'']),
        (3, Customer, [''task_T1'', ''user_C1'', ''role_customer''])]"
    by (simp add: example_sockets_def on_connection_def joinTask_def select_no_password_def
          user_A1_def user_C1_def user_C2_def)
  have relay: "on_taskUpdate example_sockets (on_connection 1 (select_no_password user_A1))
                 ''T1'' ''edited''
     = [(3, ''taskUpdated'', Client_data ''T1'' ''edited'')]"
    by (simp add: on_taskUpdate_def socket_to_emit_def example_sockets_def on_connection_def
          joinTask_def select_no_password_def user_A1_def user_C1_def user_C2_def)
  from rest_update_reaches_every_socket [THEN conjunct1, rule_format, OF ok] socks relay
  show ?thesis
    by (simp add: example_sockets_def on_connection_def joinTask_def)
qed

section \<open>The visibility policy\<close>

lemma getTasks_query_unfiltered:
  "matches rx (getTasks_query user (unfiltered p lmt sb so)) t
     \<longleftrightarrow> \<not> isArchived t
         \<and> (role user = Customer \<longrightarrow> assigneeId t = user_id user)
         \<and> (role user = Vendor \<longrightarrow> assigneeId t = user_id user \<or> createdBy t = user_id user)"
  by (cases "role user") (auto simp: getTasks_query_def unfiltered_def matches_def truthy_def Let_def)

lemma getTasksValidation_unfiltered:
  "getTasksValidation (unfiltered p lmt sb so) = []
     \<longleftrightarrow> (case p of None \<Rightarrow> True | Some n \<Rightarrow> 1 \<le> n)
         \<and> (case lmt of None \<Rightarrow> True | Some n \<Rightarrow> 1 \<le> n \<and> n \<le> 100)"
  by (simp add: getTasksValidation_def unfiltered_def split: option.splits)

lemma GET_tasks_unfiltered:
  "GET_tasks rx srt tasks user (unfiltered p lmt sb so) = Inr pg
     \<longleftrightarrow> getTasksValidation (unfiltered p lmt sb so) = []
         \<and> pg = (let found = filter (matches rx (getTasks_query user (unfiltered p lmt sb so))) tasks;
                      shown = take (nat (case lmt of None \<Rightarrow> 50 | Some n \<Rightarrow> n))
                                (drop (nat (((case p of None \<Rightarrow> 1 | Some n \<Rightarrow> n) - 1)
                                             * (case lmt of None \<Rightarrow> 50 | Some n \<Rightarrow> n)))
                                   (srt (case sb of None \<Rightarrow> ''createdAt'' | Some f \<Rightarrow> f)
                                        ((case so of None \<Rightarrow> ''desc'' | Some d \<Rightarrow> d) = ''desc'')
                                        found))
                  in \<lparr>tasks_count = length shown, tasks_total = length found, tasks_data = shown\<rparr>)"
  by (auto simp: GET_tasks_def getTasks_def Let_def unfiltered_def)

lemma page_covers:
  assumes "i < length xs" and "0 < l"
  shows "xs ! i \<in> set (take l (drop (i div l * l) xs))"
proof -
  let ?k = "i div l * l"
  have split: "?k + i mod l = i" by simp
  have small: "i mod l < l" using assms(2) by simp
  have "?k + i mod l < length xs" using assms(1) by (simp only: split)
  moreover have "a + b < n \<Longrightarrow> b < n - a" for a b n :: nat by arith
  ultimately have "i mod l < length xs - ?k" by blast
  then have inside: "i mod l < length (drop ?k xs)" by (simp only: length_drop)
  have "take l (drop ?k xs) ! (i mod l) = drop ?k xs ! (i mod l)"
    using small by simp
  also have "\<dots> = xs ! (?k + i mod l)"
    using inside by simp
  also have "\<dots> = xs ! i" by (simp only: split)
  finally have "take l (drop ?k xs) ! (i mod l) = xs ! i" .
  moreover have "i mod l < length (take l (drop ?k xs))"
    using small inside by simp
  ultimately show ?thesis by (metis nth_mem)
qed

lemma some_page_holds:
  assumes "t \<in> set xs" and "1 \<le> limit"
  shows "\<exists>p\<ge>1. t \<in> set (take (nat limit) (drop (nat ((p - 1) * limit)) xs))"
proof -
  from assms(1) obtain i where i: "i < length xs" "xs ! i = t"
    by (auto simp: in_set_conv_nth)
  define l where "l = nat limit"
  have l: "0 < l" "limit = int l" using assms(2) by (simp_all add: l_def)
  define p where "p = int (i div l) + 1"
  have "nat ((p - 1) * limit) = i div l * l"
    by (simp add: p_def l(2) nat_mult_distrib)
  moreover have "xs ! i \<in> set (take l (drop (i div l * l) xs))"
    using i(1) l(1) by (rule page_covers)
  ultimately have "t \<in> set (take (nat limit) (drop (nat ((p - 1) * limit)) xs))"
    using i(2) by (simp add: l_def)
  moreover have "1 \<le> p" by (simp add: p_def)
  ultimately show ?thesis by blast
qed

text \<open>
  Claim C3, as the claim states it, fails on archived tasks: the task T3 is archived; the
  single-task endpoint answers the admin A1 and the customer C1, its assignee, with T3,
  and the listing of neither contains it.
\<close>

theorem list_scope_counterexample:
  "GET_task example_users example_tasks (select_no_password user_A1) ''T3'' = Inr task_T3
   \<and> GET_task example_users example_tasks (select_no_password user_C1) ''T3'' = Inr task_T3
   \<and> GET_tasks (\<lambda>p s. False) (\<lambda>f d xs. xs) example_tasks (select_no_password user_A1)
         (unfiltered None None None None)
       = Inr \<lparr>tasks_count = 2, tasks_total = 2, tasks_data = [task_T1, task_T2]\<rparr>
   \<and> GET_tasks (\<lambda>p s. False) (\<lambda>f d xs. xs) example_tasks (select_no_password user_C1)
         (unfiltered None None None None)
       = Inr \<lparr>tasks_count = 1, tasks_total = 1, tasks_data = [task_T1]\<rparr>"
  by (simp add: GET_task_def getTask_def GET_tasks_def getTasks_def getTasksValidation_def
        getTasks_query_def matches_def truthy_def unfiltered_def
        Task_findById_def User_findById_def
        example_tasks_def example_users_def select_no_password_def
        task_T1_def task_T2_def task_T3_def
        user_A1_def user_V1_def user_C1_def user_C2_def user_V2_def Let_def)

text \<open>
  Claim C3, amended. For every actor and every stored task whose assignee and creator
  exist, with a sort that rearranges the matching tasks and a limit that the validation
  admits: the single-task endpoint answers the actor with the task if and only if the
  role rule holds (any task for an admin, assignee or creator for a vendor, assignee for
  a customer), whether the task is archived or not. When the task is not archived, it
  is on some page of the task list requested without optional filters if and only if the
  single-task endpoint answers the actor with the task. When the task is archived, it is
  on no page of that list. When the number of matching tasks does not exceed the limit,
  the first page, which is the default, holds the task if and only if it is not archived
  and the single-task endpoint answers with it. The total of the list is the number of
  stored tasks that are not archived and satisfy the role rule, and a page holds at most
  \<open>limit\<close> tasks (50 by default).
\<close>

theorem list_scope_agrees_with_read_check:
  assumes "Task_findById tasks (task_id t) = Some t"
    and "User_findById users (Some (assigneeId t)) \<noteq> None"
    and "User_findById users (Some (createdBy t)) \<noteq> None"
    and "\<forall>f d xs. set (srt f d xs) = set xs \<and> length (srt f d xs) = length xs"
    and "case lmt of None \<Rightarrow> True | Some n \<Rightarrow> 1 \<le> n \<and> n \<le> 100"
  shows "(GET_task users tasks user (task_id t) = Inr t
          \<longleftrightarrow> (role user = Customer \<longrightarrow> assigneeId t = user_id user)
              \<and> (role user = Vendor
                   \<longrightarrow> assigneeId t = user_id user \<or> createdBy t = user_id user))
       \<and> (\<not> isArchived t
          \<longrightarrow> ((\<exists>p pg. 1 \<le> p
                       \<and> GET_tasks rx srt tasks user (unfiltered (Some p) lmt sb so) = Inr pg
                       \<and> t \<in> set (tasks_data pg))
               \<longleftrightarrow> GET_task users tasks user (task_id t) = Inr t))
       \<and> (isArchived t
          \<longrightarrow> (\<forall>p pg. GET_tasks rx srt tasks user (unfiltered p lmt sb so) = Inr pg
                       \<longrightarrow> t \<notin> set (tasks_data pg)))
       \<and> (\<forall>pg. GET_tasks rx srt tasks user (unfiltered None lmt sb so) = Inr pg
                 \<and> int (tasks_total pg) \<le> (case lmt of None \<Rightarrow> 50 | Some n \<Rightarrow> n)
               \<longrightarrow> (t \<in> set (tasks_data pg)
                     \<longleftrightarrow> \<not> isArchived t \<and> GET_task users tasks user (task_id t) = Inr t))
       \<and> (\<exists>pg. GET_tasks rx srt tasks user (unfiltered None lmt sb so) = Inr pg
               \<and> tasks_total pg
                   = length (filter (\<lambda>x. \<not> isArchived x
                        \<and> (role user = Customer \<longrightarrow> assigneeId x = user_id user)
                        \<and> (role user = Vendor
                             \<longrightarrow> assigneeId x = user_id user \<or> createdBy x = user_id user))
                      tasks)
               \<and> tasks_count pg = length (tasks_data pg)
               \<and> int (tasks_count pg) \<le> (case lmt of None \<Rightarrow> 50 | Some n \<Rightarrow> n))"
proof -
  define limit where "limit = (case lmt of None \<Rightarrow> 50 | Some n \<Rightarrow> n)"
  define found where "found = filter (matches rx (getTasks_query user (unfiltered None lmt sb so))) tasks"
  define ordered where "ordered = srt (case sb of None \<Rightarrow> ''createdAt'' | Some f \<Rightarrow> f)
                                  ((case so of None \<Rightarrow> ''desc'' | Some d \<Rightarrow> d) = ''desc'') found"
  define visible where "visible \<longleftrightarrow> (role user = Customer \<longrightarrow> assigneeId t = user_id user)
      \<and> (role user = Vendor \<longrightarrow> assigneeId t = user_id user \<or> createdBy t = user_id user)"
  have limit: "1 \<le> limit" using assms(5) by (simp add: limit_def split: option.splits)
  have filt: "filter (matches rx (getTasks_query user (unfiltered p lmt sb so))) tasks = found" for p
    unfolding found_def by (rule filter_cong [OF refl]) (simp add: getTasks_query_unfiltered)
  have valid: "getTasksValidation (unfiltered p lmt sb so) = [] \<longleftrightarrow> (case p of None \<Rightarrow> True | Some n \<Rightarrow> 1 \<le> n)" for p
    using assms(5) by (simp add: getTasksValidation_unfiltered)
  have page: "GET_tasks rx srt tasks user (unfiltered p lmt sb so) = Inr pg
      \<longleftrightarrow> (case p of None \<Rightarrow> True | Some n \<Rightarrow> 1 \<le> n)
          \<and> pg = \<lparr>tasks_count = length (take (nat limit) (drop (nat (((case p of None \<Rightarrow> 1 | Some n \<Rightarrow> n) - 1) * limit)) ordered)),
                   tasks_total = length found,
                   tasks_data = take (nat limit) (drop (nat (((case p of None \<Rightarrow> 1 | Some n \<Rightarrow> n) - 1) * limit)) ordered)\<rparr>" for p pg
    by (simp add: GET_tasks_unfiltered valid filt Let_def limit_def ordered_def)
  have set_ordered: "set ordered = set found" and length_ordered: "length ordered = length found"
    using assms(4) by (simp_all add: ordered_def)
  from assms(2) obtain a where a: "User_findById users (Some (assigneeId t)) = Some a" by blast
  from assms(3) obtain c where c: "User_findById users (Some (createdBy t)) = Some c" by blast
  have ida: "user_id a = assigneeId t" using a by (rule User_findById_id)
  have idc: "user_id c = createdBy t" using c by (rule User_findById_id)
  have mem: "t \<in> set tasks" using assms(1) by (rule Task_findById_mem)
  have detail: "GET_task users tasks user (task_id t) = Inr t \<longleftrightarrow> visible"
    unfolding visible_def using assms(1) a c ida idc
    by (cases "role user") (auto simp: GET_task_def getTask_def Let_def split: bool.splits)
  have listed: "t \<in> set found \<longleftrightarrow> \<not> isArchived t \<and> visible"
    using mem by (simp add: found_def visible_def getTasks_query_unfiltered)
  have shown_sub: "t \<in> set (take n (drop k ordered)) \<Longrightarrow> t \<in> set found" for n k
    using set_ordered by (metis in_set_dropD in_set_takeD)
  have first: "GET_task users tasks user (task_id t) = Inr t
          \<longleftrightarrow> (role user = Customer \<longrightarrow> assigneeId t = user_id user)
              \<and> (role user = Vendor
                   \<longrightarrow> assigneeId t = user_id user \<or> createdBy t = user_id user)"
    using detail by (simp only: visible_def)
  have second: "\<not> isArchived t
          \<longrightarrow> ((\<exists>p pg. 1 \<le> p
                       \<and> GET_tasks rx srt tasks user (unfiltered (Some p) lmt sb so) = Inr pg
                       \<and> t \<in> set (tasks_data pg))
               \<longleftrightarrow> GET_task users tasks user (task_id t) = Inr t)"
  proof
    assume op: "\<not> isArchived t"
    show "(\<exists>p pg. 1 \<le> p
                       \<and> GET_tasks rx srt tasks user (unfiltered (Some p) lmt sb so) = Inr pg
                       \<and> t \<in> set (tasks_data pg))
               \<longleftrightarrow> GET_task users tasks user (task_id t) = Inr t"
    proof
      assume "\<exists>p pg. 1 \<le> p
                       \<and> GET_tasks rx srt tasks user (unfiltered (Some p) lmt sb so) = Inr pg
                       \<and> t \<in> set (tasks_data pg)"
      then obtain p pg where "GET_tasks rx srt tasks user (unfiltered (Some p) lmt sb so) = Inr pg"
        and "t \<in> set (tasks_data pg)" by blast
      then have "t \<in> set found" using shown_sub by (auto simp: page)
      then show "GET_task users tasks user (task_id t) = Inr t"
        using listed detail by simp
    next
      assume "GET_task users tasks user (task_id t) = Inr t"
      then have "t \<in> set ordered" using op listed detail set_ordered by simp
      from some_page_holds [OF this limit] obtain p where p: "1 \<le> p"
        "t \<in> set (take (nat limit) (drop (nat ((p - 1) * limit)) ordered))" by blast
      then show "\<exists>p pg. 1 \<le> p
                       \<and> GET_tasks rx srt tasks user (unfiltered (Some p) lmt sb so) = Inr pg
                       \<and> t \<in> set (tasks_data pg)"
        by (intro exI [of _ p]) (simp add: page)
    qed
  qed
  have third: "isArchived t
          \<longrightarrow> (\<forall>p pg. GET_tasks rx srt tasks user (unfiltered p lmt sb so) = Inr pg
                       \<longrightarrow> t \<notin> set (tasks_data pg))"
    using listed shown_sub by (auto simp: page)
  have fourth: "\<forall>pg. GET_tasks rx srt tasks user (unfiltered None lmt sb so) = Inr pg
                 \<and> int (tasks_total pg) \<le> (case lmt of None \<Rightarrow> 50 | Some n \<Rightarrow> n)
               \<longrightarrow> (t \<in> set (tasks_data pg)
                     \<longleftrightarrow> \<not> isArchived t \<and> GET_task users tasks user (task_id t) = Inr t)"
  proof (intro allI impI)
    fix pg
    assume h: "GET_tasks rx srt tasks user (unfiltered None lmt sb so) = Inr pg
                 \<and> int (tasks_total pg) \<le> (case lmt of None \<Rightarrow> 50 | Some n \<Rightarrow> n)"
    then have pg: "pg = \<lparr>tasks_count = length (take (nat limit) ordered),
                           tasks_total = length found,
                           tasks_data = take (nat limit) ordered\<rparr>"
      by (simp add: page)
    have data: "tasks_data pg = take (nat limit) ordered" and total: "tasks_total pg = length found"
      by (simp_all add: pg)
    from h have "int (length found) \<le> limit"
      by (simp only: total limit_def)
    then have "length ordered \<le> nat limit" using length_ordered by simp
    then have "tasks_data pg = ordered" using data by simp
    then show "t \<in> set (tasks_data pg)
                     \<longleftrightarrow> \<not> isArchived t \<and> GET_task users tasks user (task_id t) = Inr t"
      using set_ordered listed detail by simp
  qed
  have fifth: "\<exists>pg. GET_tasks rx srt tasks user (unfiltered None lmt sb so) = Inr pg
               \<and> tasks_total pg
                   = length (filter (\<lambda>x. \<not> isArchived x
                        \<and> (role user = Customer \<longrightarrow> assigneeId x = user_id user)
                        \<and> (role user = Vendor
                             \<longrightarrow> assigneeId x = user_id user \<or> createdBy x = user_id user))
                      tasks)
               \<and> tasks_count pg = length (tasks_data pg)
               \<and> int (tasks_count pg) \<le> (case lmt of None \<Rightarrow> 50 | Some n \<Rightarrow> n)"
  proof -
    have "length found = length (filter (\<lambda>x. \<not> isArchived x
                        \<and> (role user = Customer \<longrightarrow> assigneeId x = user_id user)
                        \<and> (role user = Vendor
                             \<longrightarrow> assigneeId x = user_id user \<or> createdBy x = user_id user))
                      tasks)"
      unfolding found_def
      by (rule arg_cong [where f = length], rule filter_cong [OF refl])
        (simp add: getTasks_query_unfiltered)
    moreover have "int (length (take (nat limit) ordered)) \<le> limit"
      using limit by simp
    ultimately show ?thesis
      by (simp add: page limit_def [symmetric])
  qed
  from first second third fourth fifth show ?thesis by (intro conjI)
qed

theorem list_scope_agrees_with_read_check_witness:
  "GET_tasks (\<lambda>p s. False) (\<lambda>f d xs. xs) example_tasks (select_no_password user_C1)
       (unfiltered (Some 1) None None None)
     = Inr \<lparr>tasks_count = 1, tasks_total = 1, tasks_data = [task_T1]\<rparr>
   \<and> GET_task example_users example_tasks (select_no_password user_C1) ''T1'' = Inr task_T1
   \<and> GET_task example_users example_tasks (select_no_password user_C1) ''T2'' \<noteq> Inr task_T2"
proof -
  let ?C1 = "select_no_password user_C1"
  have listing: "GET_tasks (\<lambda>p s. False) (\<lambda>f d xs. xs) example_tasks ?C1
       (unfiltered (Some 1) None None None)
     = Inr \<lparr>tasks_count = 1, tasks_total = 1, tasks_data = [task_T1]\<rparr>"
    by (simp add: GET_tasks_def getTasks_def getTasksValidation_def getTasks_query_def
          matches_def truthy_def unfiltered_def example_tasks_def select_no_password_def
          task_T1_def task_T2_def task_T3_def user_C1_def Let_def)
  have f1: "Task_findById example_tasks (task_id task_T1) = Some task_T1"
    and f2: "Task_findById example_tasks (task_id task_T2) = Some task_T2"
    by (simp_all add: Task_findById_def example_tasks_def task_T1_def task_T2_def task_T3_def)
  have r1: "User_findById example_users (Some (assigneeId task_T1)) \<noteq> None"
    "User_findById example_users (Some (createdBy task_T1)) \<noteq> None"
    and r2: "User_findById example_users (Some (assigneeId task_T2)) \<noteq> None"
    "User_findById example_users (Some (createdBy task_T2)) \<noteq> None"
    by (simp_all add: User_findById_def example_users_def task_T1_def task_T2_def
          user_A1_def user_V1_def user_C1_def user_C2_def user_V2_def)
  have rearranged: "\<forall>f d xs. set ((\<lambda>f d xs. xs) f d xs) = set xs
                      \<and> length ((\<lambda>f (d :: bool) (xs :: task list). xs) (f :: string) d xs) = length xs"
    by simp
  have bound: "case None :: int option of None \<Rightarrow> True | Some n \<Rightarrow> 1 \<le> n \<and> n \<le> 100"
    by simp
  have open1: "\<not> isArchived task_T1"
    by (simp add: task_T1_def)
  have ids: "task_id task_T1 = ''T1''" "task_id task_T2 = ''T2''"
    by (simp_all add: task_T1_def task_T2_def)
  have other: "role ?C1 = Customer" "assigneeId task_T2 \<noteq> user_id ?C1"
    by (simp_all add: select_no_password_def user_C1_def task_T2_def)
  have shown: "\<exists>p pg. 1 \<le> p
      \<and> GET_tasks (\<lambda>p s. False) (\<lambda>f d xs. xs) example_tasks ?C1
            (unfiltered (Some p) None None None) = Inr pg
      \<and> task_T1 \<in> set (tasks_data pg)"
    by (rule exI [of _ 1], rule exI [of _ "\<lparr>tasks_count = 1, tasks_total = 1, tasks_data = [task_T1]\<rparr>"])
      (simp add: listing)
  from list_scope_agrees_with_read_check [where rx = "\<lambda>p s. False" and user = ?C1
      and sb = None and so = None, OF f1 r1 rearranged bound,
      THEN conjunct2, THEN conjunct1, rule_format, OF open1] shown
  have one: "GET_task example_users example_tasks ?C1 ''T1'' = Inr task_T1"
    by (simp only: ids)
  from list_scope_agrees_with_read_check [where rx = "\<lambda>p s. False" and user = ?C1
      and sb = None and so = None, OF f2 r2 rearranged bound, THEN conjunct1] other
  have two: "GET_task example_users example_tasks ?C1 ''T2'' \<noteq> Inr task_T2"
    by (simp add: ids)
  from listing one two show ?thesis by (intro conjI)
qed

section \<open>The user routes\<close>

lemma getUsers_valid:
  "getUsers rx srt [] users ps =
     Inr \<lparr>page_count = length (map select_no_password
              (take (nat (case up_limit ps of None \<Rightarrow> 50 | Some n \<Rightarrow> n))
                 (drop (nat (((case up_page ps of None \<Rightarrow> 1 | Some n \<Rightarrow> n) - 1)
                             * (case up_limit ps of None \<Rightarrow> 50 | Some n \<Rightarrow> n)))
                    (srt (case up_sortBy ps of None \<Rightarrow> ''createdAt'' | Some f \<Rightarrow> f)
                         ((case up_sortOrder ps of None \<Rightarrow> ''desc'' | Some d \<Rightarrow> d) = ''desc'')
                         (filter (getUsers_query rx ps) users))))),
          page_total = length (filter (getUsers_query rx ps) users),
          page_data = map select_no_password
              (take (nat (case up_limit ps of None \<Rightarrow> 50 | Some n \<Rightarrow> n))
                 (drop (nat (((case up_page ps of None \<Rightarrow> 1 | Some n \<Rightarrow> n) - 1)
                             * (case up_limit ps of None \<Rightarrow> 50 | Some n \<Rightarrow> n)))
                    (srt (case up_sortBy ps of None \<Rightarrow> ''createdAt'' | Some f \<Rightarrow> f)
                         ((case up_sortOrder ps of None \<Rightarrow> ''desc'' | Some d \<Rightarrow> d) = ''desc'')
                         (filter (getUsers_query rx ps) users))))\<rparr>"
  by (simp add: getUsers_def Let_def)

text \<open>
  Claim C10. No route of the user router verifies a credential. Listing the users and
  fetching one user answer a request the same way whatever its \<^verbatim>\<open>Authorization\<close>
  header, a request without a credential included, and never with status 401: a listing
  whose query passes the route's validation is answered with the matching users (their
  passwords removed), and a fetch of a stored user with that user. On the update and
  delete routes \<open>authorize\<close> runs while \<^verbatim>\<open>req.user\<close> is undefined: it throws, and the
  handler behind it is never reached.
\<close>

theorem user_routes_without_credentials:
  "GET_users rx srt users (incoming h) ps = GET_users rx srt users (incoming None) ps
   \<and> (\<forall>m. GET_users rx srt users (incoming h) ps \<noteq> Inl (Status 401 m))
   \<and> (getUsersValidation ps = []
        \<longrightarrow> (\<exists>pg. GET_users rx srt users (incoming h) ps = Inr pg
               \<and> page_total pg = length (filter (getUsers_query rx ps) users)
               \<and> page_count pg = length (page_data pg)
               \<and> list_all (\<lambda>u. password u = None) (page_data pg)))
   \<and> GET_user users tasks (incoming h) i = GET_user users tasks (incoming None) i
   \<and> (\<forall>m. GET_user users tasks (incoming h) i \<noteq> Inl (Status 401 m))
   \<and> (User_findById users (Some i) = Some u
        \<longrightarrow> (\<exists>stats. GET_user users tasks (incoming h) i = Inr (select_no_password u, stats)))
   \<and> PUT_user (incoming h) handler
       = Inl (Thrown ''TypeError: Cannot read properties of undefined'')
   \<and> DELETE_user (incoming h) handler
       = Inl (Thrown ''TypeError: Cannot read properties of undefined'')"
proof (intro conjI allI impI)
  show "GET_users rx srt users (incoming h) ps = GET_users rx srt users (incoming None) ps"
    by (simp add: GET_users_def)
  show "GET_users rx srt users (incoming h) ps \<noteq> Inl (Status 401 m)" for m
    by (cases "getUsersValidation ps = []")
      (simp_all add: GET_users_def getUsers_valid, simp add: getUsers_def)
  show "\<exists>pg. GET_users rx srt users (incoming h) ps = Inr pg
               \<and> page_total pg = length (filter (getUsers_query rx ps) users)
               \<and> page_count pg = length (page_data pg)
               \<and> list_all (\<lambda>u. password u = None) (page_data pg)"
    if "getUsersValidation ps = []"
    using that by (simp add: GET_users_def getUsers_valid list_all_iff select_no_password_def)
  show "GET_user users tasks (incoming h) i = GET_user users tasks (incoming None) i"
    by (simp add: GET_user_def)
  show "GET_user users tasks (incoming h) i \<noteq> Inl (Status 401 m)" for m
    by (simp add: GET_user_def getUser_def Let_def split: option.splits)
  show "\<exists>stats. GET_user users tasks (incoming h) i = Inr (select_no_password u, stats)"
    if "User_findById users (Some i) = Some u"
    using that by (simp add: GET_user_def getUser_def Let_def)
  show "PUT_user (incoming h) handler = Inl (Thrown ''TypeError: Cannot read properties of undefined'')"
    by (simp add: PUT_user_def authorize_def incoming_def)
  show "DELETE_user (incoming h) handler = Inl (Thrown ''TypeError: Cannot read properties of undefined'')"
    by (simp add: DELETE_user_def authorize_def incoming_def)
qed

text \<open>
  Without any credential, the listing returns the five users of the example and the
  fetch returns the customer C1 with the statistics of their one open task.
\<close>

theorem user_routes_without_credentials_witness:
  "GET_users (\<lambda>p s. False) (\<lambda>f d xs. xs) example_users (incoming None) no_users_params
     = Inr \<lparr>page_count = 5, page_total = 5, page_data = map select_no_password example_users\<rparr>
   \<and> GET_user example_users example_tasks (incoming None) ''C1''
     = Inr (select_no_password user_C1,
            \<lparr>stats_total = 1, stats_todo = 1, stats_inprogress = 0, stats_done = 0,
             stats_totalTimeSpent = 0\<rparr>)"
proof -
  have valid: "getUsersValidation no_users_params = []"
    by (simp add: getUsersValidation_def no_users_params_def)
  have found: "User_findById example_users (Some ''C1'') = Some user_C1"
    by (simp add: User_findById_def example_users_def
          user_A1_def user_V1_def user_C1_def user_C2_def user_V2_def)
  have listing: "GET_users (\<lambda>p s. False) (\<lambda>f d xs. xs) example_users (incoming None) no_users_params
     = Inr \<lparr>page_count = 5, page_total = 5, page_data = map select_no_password example_users\<rparr>"
    by (simp add: GET_users_def valid getUsers_valid)
      (simp add: getUsers_query_def no_users_params_def truthy_def example_users_def)
  have fetch: "GET_user example_users example_tasks (incoming None) ''C1''
     = Inr (select_no_password user_C1,
            \<lparr>stats_total = 1, stats_todo = 1, stats_inprogress = 0, stats_done = 0,
             stats_totalTimeSpent = 0\<rparr>)"
    using found
    by (simp add: GET_user_def getUser_def select_no_password_def user_C1_def
          example_tasks_def task_T1_def task_T2_def task_T3_def Let_def)
  from user_routes_without_credentials [of "\<lambda>p s. False" "\<lambda>f d xs. xs" example_users None
      no_users_params example_tasks "''C1''" user_C1 "\<lambda>u. Inr ()"] listing fetch
  show ?thesis by blast
qed

end
